theory Spec2Isabelle
  imports Complex_Main
begin

section \<open>Shared types (packages/types/src/index.ts)\<close>

text \<open>
  The string-literal unions of the shared types package are datatypes; the literal each
  variant stands for is given by a \<open>_literal\<close> function, and the variants are listed in
  the order of the declaration. Constructors carry a prefix because several literals
  occur in more than one union.
\<close>

datatype RobotConnectionState = RC_disconnected | RC_connecting | RC_connected | RC_error

datatype RobotState =
    RS_IDLE
  | RS_RUNNING
  | RS_PAUSED
  | RS_STOPPED
  | RS_ERROR
  | RS_EMERGENCY_STOP
  | RS_PROTECTIVE_STOP
  | RS_SAFEGUARD_STOP
  | RS_VIOLATION
  | RS_FAULT
  | RS_BOOTING
  | RS_POWER_OFF
  | RS_POWER_ON
  | RS_BACKDRIVE
  | RS_UPDATING_FIRMWARE

fun RobotState_literal :: "RobotState \<Rightarrow> string" where
  "RobotState_literal RS_IDLE = ''IDLE''"
| "RobotState_literal RS_RUNNING = ''RUNNING''"
| "RobotState_literal RS_PAUSED = ''PAUSED''"
| "RobotState_literal RS_STOPPED = ''STOPPED''"
| "RobotState_literal RS_ERROR = ''ERROR''"
| "RobotState_literal RS_EMERGENCY_STOP = ''EMERGENCY_STOP''"
| "RobotState_literal RS_PROTECTIVE_STOP = ''PROTECTIVE_STOP''"
| "RobotState_literal RS_SAFEGUARD_STOP = ''SAFEGUARD_STOP''"
| "RobotState_literal RS_VIOLATION = ''VIOLATION''"
| "RobotState_literal RS_FAULT = ''FAULT''"
| "RobotState_literal RS_BOOTING = ''BOOTING''"
| "RobotState_literal RS_POWER_OFF = ''POWER_OFF''"
| "RobotState_literal RS_POWER_ON = ''POWER_ON''"
| "RobotState_literal RS_BACKDRIVE = ''BACKDRIVE''"
| "RobotState_literal RS_UPDATING_FIRMWARE = ''UPDATING_FIRMWARE''"

definition RobotState_variants :: "RobotState list" where
  "RobotState_variants =
     [RS_IDLE, RS_RUNNING, RS_PAUSED, RS_STOPPED, RS_ERROR, RS_EMERGENCY_STOP,
      RS_PROTECTIVE_STOP, RS_SAFEGUARD_STOP, RS_VIOLATION, RS_FAULT, RS_BOOTING,
      RS_POWER_OFF, RS_POWER_ON, RS_BACKDRIVE, RS_UPDATING_FIRMWARE]"

datatype SafetyMode =
    SM_NORMAL
  | SM_REDUCED
  | SM_PROTECTIVE_STOP
  | SM_RECOVERY
  | SM_SAFEGUARD_STOP
  | SM_SYSTEM_EMERGENCY_STOP
  | SM_ROBOT_EMERGENCY_STOP
  | SM_VIOLATION
  | SM_FAULT
  | SM_VALIDATE_JOINT_ID
  | SM_UNDEFINED_SAFETY_MODE

fun SafetyMode_literal :: "SafetyMode \<Rightarrow> string" where
  "SafetyMode_literal SM_NORMAL = ''NORMAL''"
| "SafetyMode_literal SM_REDUCED = ''REDUCED''"
| "SafetyMode_literal SM_PROTECTIVE_STOP = ''PROTECTIVE_STOP''"
| "SafetyMode_literal SM_RECOVERY = ''RECOVERY''"
| "SafetyMode_literal SM_SAFEGUARD_STOP = ''SAFEGUARD_STOP''"
| "SafetyMode_literal SM_SYSTEM_EMERGENCY_STOP = ''SYSTEM_EMERGENCY_STOP''"
| "SafetyMode_literal SM_ROBOT_EMERGENCY_STOP = ''ROBOT_EMERGENCY_STOP''"
| "SafetyMode_literal SM_VIOLATION = ''VIOLATION''"
| "SafetyMode_literal SM_FAULT = ''FAULT''"
| "SafetyMode_literal SM_VALIDATE_JOINT_ID = ''VALIDATE_JOINT_ID''"
| "SafetyMode_literal SM_UNDEFINED_SAFETY_MODE = ''UNDEFINED_SAFETY_MODE''"

definition SafetyMode_variants :: "SafetyMode list" where
  "SafetyMode_variants =
     [SM_NORMAL, SM_REDUCED, SM_PROTECTIVE_STOP, SM_RECOVERY, SM_SAFEGUARD_STOP,
      SM_SYSTEM_EMERGENCY_STOP, SM_ROBOT_EMERGENCY_STOP, SM_VIOLATION, SM_FAULT,
      SM_VALIDATE_JOINT_ID, SM_UNDEFINED_SAFETY_MODE]"

text \<open>The variant names as the specification lists them, for comparison with the code.\<close>

definition spec_SafetyMode_names :: "string list" where
  "spec_SafetyMode_names =
     [''NORMAL'', ''REDUCED'', ''PROTECTIVE_STOP'', ''RECOVERY'', ''SAFEGUARD_STOP'',
      ''SYSTEM_EMERGENCY_STOP'', ''ROBOT_EMERGENCY_STOP'', ''VIOLATION'', ''FAULT'',
      ''UNDEFINED'']"

definition spec_RobotState_names :: "string list" where
  "spec_RobotState_names =
     [''IDLE'', ''RUNNING'', ''PAUSED'', ''STOPPED'', ''ERROR'', ''EMERGENCY_STOP'',
      ''PROTECTIVE_STOP'', ''SAFEGUARD_STOP'', ''VIOLATION'', ''FAULT'', ''BOOTING'',
      ''POWER_OFF'', ''POWER_ON'', ''BACKDRIVE'', ''UPDATING_FIRMWARE'']"

definition spec_RobotState_count :: nat where
  "spec_RobotState_count = 14"






text \<open>
  Numbers are JavaScript numbers: physical quantities are \<open>real\<close>, counters, ports and
  durations are \<open>int\<close> or \<open>nat\<close>. Fields are prefixed where the source's name would
  clash with another record's or with a constant of HOL.
\<close>

record Vector3D =
  v_x :: real
  v_y :: real
  v_z :: real

record Pose6D =
  p_x :: real
  p_y :: real
  p_z :: real
  p_rx :: real
  p_ry :: real
  p_rz :: real

record JointPositions =
  base :: real
  shoulder :: real
  elbow :: real
  wrist1 :: real
  wrist2 :: real
  wrist3 :: real

text \<open>
  \<open>interface RobotTelemetry\<close>. The unions \<open>RobotState\<close>, \<open>SafetyMode\<close> and
  \<open>RobotConnectionState\<close> are erased when the program runs: a sample is parsed from the
  JSON text the server sent and the field holds the string found there. The screens of
  the kiosk compare it with \<open>'READY'\<close> and \<open>'EXECUTING'\<close>, which are not literals of the
  declared union, so the fields are strings here.
\<close>

record RobotTelemetry =
  t_timestamp :: real
  t_connectionState :: string
  t_robotState :: string
  t_safetyMode :: string
  tcpPosition :: Pose6D
  jointPositions :: JointPositions
  jointVelocities :: JointPositions
  jointCurrents :: JointPositions
  jointTemperatures :: JointPositions
  isEmergencyStop :: bool
  isProtectiveStop :: bool
  isProgramRunning :: bool
  isRobotConnected :: bool
  currentProgram :: "string option"
  programState :: "string option"
  lastError :: "string option"
  errorCode :: "int option"

record RobotConnectionConfig =
  hostname :: string
  port :: int
  timeout :: int
  retryAttempts :: int
  retryDelay :: int

record SecurityConfig =
  operatorPin :: string
  supervisorPin :: string
  adminPin :: string
  autoLockEnabled :: bool
  autoLockTimeout :: int
  maxFailedAttempts :: int
  lockoutDuration :: int

record InterfaceConfig =
  theme :: string
  language :: string
  touchSensitivity :: real
  screenTimeout :: int
  showAdvancedControls :: bool
  enableSounds :: bool
  enableHapticFeedback :: bool

record SystemConfig =
  mockMode :: bool
  debugMode :: bool
  logLevel :: string
  telemetryInterval :: int
  heartbeatInterval :: int
  maxLogSize :: int
  backupEnabled :: bool
  backupInterval :: int

record WorkspaceLimits =
  ws_min :: Vector3D
  ws_max :: Vector3D

record JointLimits =
  jl_min :: JointPositions
  jl_max :: JointPositions

record SafetyLimits =
  workspace :: WorkspaceLimits
  jointLimits :: JointLimits

record RobotParameters =
  maxSpeed :: real
  maxAcceleration :: real
  defaultSpeed :: real
  defaultAcceleration :: real
  jogDistance :: real
  jogSpeed :: real
  safetyLimits :: SafetyLimits

record KioskSettings =
  robot :: RobotConnectionConfig
  security :: SecurityConfig
  interface :: InterfaceConfig
  system :: SystemConfig
  robotParameters :: RobotParameters

definition DEFAULT_ROBOT_CONFIG :: RobotConnectionConfig where
  "DEFAULT_ROBOT_CONFIG =
     \<lparr>hostname = ''192.168.1.100'', port = 30004, timeout = 5000, retryAttempts = 3,
      retryDelay = 1000\<rparr>"

definition DEFAULT_SECURITY_CONFIG :: SecurityConfig where
  "DEFAULT_SECURITY_CONFIG =
     \<lparr>operatorPin = ''1234'', supervisorPin = ''5678'', adminPin = ''9999'',
      autoLockEnabled = True, autoLockTimeout = 5, maxFailedAttempts = 3,
      lockoutDuration = 15\<rparr>"

definition DEFAULT_INTERFACE_CONFIG :: InterfaceConfig where
  "DEFAULT_INTERFACE_CONFIG =
     \<lparr>theme = ''light'', language = ''en'', touchSensitivity = 1, screenTimeout = 30,
      showAdvancedControls = False, enableSounds = True, enableHapticFeedback = True\<rparr>"

definition DEFAULT_SYSTEM_CONFIG :: SystemConfig where
  "DEFAULT_SYSTEM_CONFIG =
     \<lparr>mockMode = True, debugMode = False, logLevel = ''info'', telemetryInterval = 100,
      heartbeatInterval = 1000, maxLogSize = 100, backupEnabled = True,
      backupInterval = 24\<rparr>"

definition all_joints :: "real \<Rightarrow> JointPositions" where
  "all_joints a =
     \<lparr>base = a, shoulder = a, elbow = a, wrist1 = a, wrist2 = a, wrist3 = a\<rparr>"

definition DEFAULT_ROBOT_PARAMETERS :: RobotParameters where
  "DEFAULT_ROBOT_PARAMETERS =
     \<lparr>maxSpeed = 1, maxAcceleration = 1, defaultSpeed = 1 / 10,
      defaultAcceleration = 1 / 2, jogDistance = 1 / 100, jogSpeed = 1 / 10,
      safetyLimits =
        \<lparr>workspace =
           \<lparr>ws_min = \<lparr>v_x = - 1, v_y = - 1, v_z = 0\<rparr>,
            ws_max = \<lparr>v_x = 1, v_y = 1, v_z = 1\<rparr>\<rparr>,
         jointLimits = \<lparr>jl_min = all_joints (- 360), jl_max = all_joints 360\<rparr>\<rparr>\<rparr>"

section \<open>The kiosk store (apps/kiosk-ui/src/hooks/useKioskStore.ts)\<close>

text \<open>
  The store's actions talk to the robot server with \<open>fetch\<close>. A request is the URL and the
  options the action passes; the server and the network are a function from the request
  to the response, \<open>None\<close> when the promise is rejected (the action's \<open>catch\<close> branch).
  Of a response the actions read \<open>ok\<close> and, once, the parsed body: \<open>json_body\<close> is
  \<open>None\<close> when \<open>response.json()\<close> is rejected.
\<close>

datatype json =
    JNull
  | JBool bool
  | JNum real
  | JStr string
  | JArr "json list"
  | JObj "(string \<times> json) list"

fun json_field :: "string \<Rightarrow> json \<Rightarrow> json option" where
  "json_field k (JObj kvs) = map_of kvs k"
| "json_field k _ = None"

record request =
  url :: string
  http_method :: string
  headers :: "(string \<times> string) list"
  body :: "json option"

record response =
  ok :: bool
  json_body :: "json option"

text \<open>
  The store exists in two files that differ in the paths they call: the one written
  against the shared types (\<open>/api/robot/...\<close>) and the one with its own copy of the
  defaults (\<open>/api/v1/robot/...\<close>). \<open>API_BASE\<close> depends on the build and is a parameter,
  and so are the browser's \<open>navigator.userAgent\<close> and \<open>encodeURIComponent\<close>.
\<close>

datatype store_file = Shared_types | Local_defaults

record env =
  API_BASE :: string
  store_file :: store_file
  fetch :: "request \<Rightarrow> response option"
  userAgent :: string
  encodeURIComponent :: "string \<Rightarrow> string"

datatype action =
    ConnectRobot | DisconnectRobot | HomeRobot | JogRobot | StopRobot | EmergencyStop
  | ChessMove

fun action_path :: "store_file \<Rightarrow> action \<Rightarrow> string" where
  "action_path Shared_types ConnectRobot = ''/api/robot/connect''"
| "action_path Shared_types DisconnectRobot = ''/api/robot/disconnect''"
| "action_path Shared_types HomeRobot = ''/api/robot/home''"
| "action_path Shared_types JogRobot = ''/api/robot/jog''"
| "action_path Shared_types StopRobot = ''/api/robot/stop''"
| "action_path Shared_types EmergencyStop = ''/api/robot/stop''"
| "action_path Local_defaults ConnectRobot = ''/api/v1/robot/connect''"
| "action_path Local_defaults DisconnectRobot = ''/api/v1/robot/disconnect''"
| "action_path Local_defaults HomeRobot = ''/api/v1/robot/home''"
| "action_path Local_defaults JogRobot = ''/api/v1/robot/jog''"
| "action_path Local_defaults StopRobot = ''/api/v1/robot/stop''"
| "action_path Local_defaults EmergencyStop = ''/api/v1/robot/estop''"
| "action_path _ ChessMove = ''/api/chess/games/current/moves''"

typedecl ChessGameState
typedecl engine_status

record KioskStore =
  sessionId :: "string option"
  isLocked :: bool
  isSupervisor :: bool
  robotConnected :: bool
  robotState :: string
  telemetry :: "RobotTelemetry option"
  currentScreen :: string
  isFullscreen :: bool
  showDebugInfo :: bool
  boardState :: "ChessGameState option"
  engineStatus :: "engine_status option"
  settings :: KioskSettings

definition initial_store :: KioskStore where
  "initial_store =
     \<lparr>sessionId = None, isLocked = True, isSupervisor = False, robotConnected = False,
      robotState = ''IDLE'', telemetry = None, currentScreen = ''dashboard'',
      isFullscreen = False, showDebugInfo = False, boardState = None,
      engineStatus = None,
      settings =
        \<lparr>robot = DEFAULT_ROBOT_CONFIG, security = DEFAULT_SECURITY_CONFIG,
         interface = DEFAULT_INTERFACE_CONFIG, system = DEFAULT_SYSTEM_CONFIG,
         robotParameters = DEFAULT_ROBOT_PARAMETERS\<rparr>\<rparr>"

text \<open>
  \<open>if (!sessionId) return false\<close>: \<open>null\<close> is falsy, and so is the empty string. The
  guard yields the session id to send when there is one.
\<close>

fun truthy_session :: "string option \<Rightarrow> string option" where
  "truthy_session None = None"
| "truthy_session (Some sid) = (if sid = [] then None else Some sid)"

text \<open>\<open>a || b\<close> on an optional string and on an optional number.\<close>

fun or_string :: "string option \<Rightarrow> string \<Rightarrow> string" where
  "or_string None d = d"
| "or_string (Some a) d = (if a = [] then d else a)"

fun or_number :: "int option \<Rightarrow> int \<Rightarrow> int" where
  "or_number None d = d"
| "or_number (Some a) d = (if a = 0 then d else a)"

text \<open>
  An action returns its boolean, the store after it, and the requests it issued (none or
  one). \<open>post\<close> is the common shape of the actions after the session guard: one
  \<open>fetch\<close>; on a response, \<open>on_ok\<close> updates the store when \<open>response.ok\<close> holds and the
  action returns \<open>response.ok\<close>; on a rejected promise it returns \<open>false\<close>.
\<close>

type_synonym outcome = "bool \<times> KioskStore \<times> request list"

definition post :: "env \<Rightarrow> request \<Rightarrow> (KioskStore \<Rightarrow> KioskStore) \<Rightarrow> KioskStore \<Rightarrow> outcome" where
  "post e req on_ok st =
     (case fetch e req of
        None \<Rightarrow> (False, st, [req])
      | Some r \<Rightarrow> if ok r then (True, on_ok st, [req]) else (False, st, [req]))"

definition json_headers :: "string \<Rightarrow> (string \<times> string) list" where
  "json_headers sid = [(''Content-Type'', ''application/json''), (''X-Session-ID'', sid)]"

definition session_headers :: "string \<Rightarrow> (string \<times> string) list" where
  "session_headers sid = [(''X-Session-ID'', sid)]"

definition action_url :: "env \<Rightarrow> action \<Rightarrow> string" where
  "action_url e a = API_BASE e @ action_path (store_file e) a"

definition connectRobot :: "env \<Rightarrow> string option \<Rightarrow> int option \<Rightarrow> KioskStore \<Rightarrow> outcome" where
  "connectRobot e hostname_arg port_arg st =
     (case truthy_session (sessionId st) of
        None \<Rightarrow> (False, st, [])
      | Some sid \<Rightarrow>
          post e
            \<lparr>url = action_url e ConnectRobot, http_method = ''POST'',
             headers = json_headers sid,
             body = Some (JObj
               [(''hostname'', JStr (or_string hostname_arg (hostname (robot (settings st))))),
                (''port'', JNum (of_int (or_number port_arg (port (robot (settings st))))))])\<rparr>
            (\<lambda>s. s\<lparr>robotConnected := True\<rparr>) st)"

definition disconnectRobot :: "env \<Rightarrow> KioskStore \<Rightarrow> outcome" where
  "disconnectRobot e st =
     (case truthy_session (sessionId st) of
        None \<Rightarrow> (False, st, [])
      | Some sid \<Rightarrow>
          post e
            \<lparr>url = action_url e DisconnectRobot, http_method = ''POST'',
             headers = session_headers sid, body = None\<rparr>
            (\<lambda>s. s\<lparr>robotConnected := False, robotState := ''IDLE''\<rparr>) st)"

definition homeRobot :: "env \<Rightarrow> KioskStore \<Rightarrow> outcome" where
  "homeRobot e st =
     (case truthy_session (sessionId st) of
        None \<Rightarrow> (False, st, [])
      | Some sid \<Rightarrow>
          post e
            \<lparr>url = action_url e HomeRobot, http_method = ''POST'',
             headers = session_headers sid, body = None\<rparr>
            (\<lambda>s. s) st)"

definition jogRobot :: "env \<Rightarrow> json \<Rightarrow> KioskStore \<Rightarrow> outcome" where
  "jogRobot e jogRequest st =
     (case truthy_session (sessionId st) of
        None \<Rightarrow> (False, st, [])
      | Some sid \<Rightarrow>
          post e
            \<lparr>url = action_url e JogRobot, http_method = ''POST'',
             headers = json_headers sid, body = Some jogRequest\<rparr>
            (\<lambda>s. s) st)"

definition stopRobot :: "env \<Rightarrow> KioskStore \<Rightarrow> outcome" where
  "stopRobot e st =
     (case truthy_session (sessionId st) of
        None \<Rightarrow> (False, st, [])
      | Some sid \<Rightarrow>
          post e
            \<lparr>url = action_url e StopRobot, http_method = ''POST'',
             headers = session_headers sid, body = None\<rparr>
            (\<lambda>s. s) st)"

definition emergencyStop :: "env \<Rightarrow> KioskStore \<Rightarrow> outcome" where
  "emergencyStop e st =
     (case truthy_session (sessionId st) of
        None \<Rightarrow> (False, st, [])
      | Some sid \<Rightarrow>
          post e
            \<lparr>url = action_url e EmergencyStop, http_method = ''POST'',
             headers = json_headers sid,
             body = Some (JObj [(''emergency'', JBool True)])\<rparr>
            (\<lambda>s. s) st)"

definition chessMove :: "env \<Rightarrow> string \<Rightarrow> string \<Rightarrow> string option \<Rightarrow> KioskStore \<Rightarrow> outcome" where
  "chessMove e fromSquare toSquare promotion st =
     (case truthy_session (sessionId st) of
        None \<Rightarrow> (False, st, [])
      | Some sid \<Rightarrow>
          post e
            \<lparr>url = action_url e ChessMove, http_method = ''POST'',
             headers = json_headers sid,
             body = Some (JObj
               [(''move'', JStr (fromSquare @ toSquare @ or_string promotion [])),
                (''executeWithRobot'', JBool True)])\<rparr>
            (\<lambda>s. s) st)"

text \<open>\<open>unlock\<close> returns its boolean and the store after it; \<open>set\<close> merges the fields given.\<close>

definition unlock :: "string \<Rightarrow> KioskStore \<Rightarrow> bool \<times> KioskStore" where
  "unlock pin st =
     (if pin = operatorPin (security (settings st))
        then (True, st\<lparr>isLocked := False, isSupervisor := False\<rparr>)
      else if pin = supervisorPin (security (settings st))
        then (True, st\<lparr>isLocked := False, isSupervisor := True\<rparr>)
      else (False, st))"

definition lock :: "KioskStore \<Rightarrow> KioskStore" where
  "lock st = st\<lparr>isLocked := True, isSupervisor := False\<rparr>"

definition updateTelemetry :: "RobotTelemetry \<Rightarrow> KioskStore \<Rightarrow> KioskStore" where
  "updateTelemetry t st =
     st\<lparr>telemetry := Some t, robotState := t_robotState t,
        robotConnected := isRobotConnected t\<rparr>"

text \<open>
  \<open>Partial<KioskSettings>\<close>: each section present or absent. \<open>updateSettings\<close> spreads the
  new sections over the old ones.
\<close>

record PartialKioskSettings =
  new_robot :: "RobotConnectionConfig option"
  new_security :: "SecurityConfig option"
  new_interface :: "InterfaceConfig option"
  new_system :: "SystemConfig option"
  new_robotParameters :: "RobotParameters option"

fun or_else :: "'a option \<Rightarrow> 'a \<Rightarrow> 'a" where
  "or_else None d = d"
| "or_else (Some a) d = a"

definition updateSettings :: "PartialKioskSettings \<Rightarrow> KioskStore \<Rightarrow> KioskStore" where
  "updateSettings newSettings st =
     st\<lparr>settings :=
         \<lparr>robot = or_else (new_robot newSettings) (robot (settings st)),
          security = or_else (new_security newSettings) (security (settings st)),
          interface = or_else (new_interface newSettings) (interface (settings st)),
          system = or_else (new_system newSettings) (system (settings st)),
          robotParameters =
            or_else (new_robotParameters newSettings) (robotParameters (settings st))\<rparr>\<rparr>"

text \<open>
  The remaining actions of the store. \<open>initializeSession\<close> returns the session id, the
  store and the requests; on a response that is not \<open>ok\<close>, a rejected promise or a body
  that cannot be parsed or read (\<open>null\<close>) it locks the store and returns \<open>null\<close>. The two
  files read the id from different keys and call different paths. An id that is absent
  or is not a string, which the declared type \<open>string | null\<close> of \<open>sessionId\<close> excludes,
  is stored as no id.
\<close>

fun session_path :: "store_file \<Rightarrow> string" where
  "session_path Shared_types = ''/api/auth/session''"
| "session_path Local_defaults = ''/api/v1/session/start''"

fun session_key :: "store_file \<Rightarrow> string" where
  "session_key Shared_types = ''sessionId''"
| "session_key Local_defaults = ''session_id''"

definition read_session_id :: "string \<Rightarrow> json \<Rightarrow> string option" where
  "read_session_id key data =
     (case json_field key data of Some (JStr sid) \<Rightarrow> Some sid | _ \<Rightarrow> None)"

definition initializeSession :: "env \<Rightarrow> KioskStore \<Rightarrow> string option \<times> KioskStore \<times> request list" where
  "initializeSession e st =
     (let req = \<lparr>url = API_BASE e @ session_path (store_file e), http_method = ''POST'',
                 headers = [(''Content-Type'', ''application/json'')],
                 body = Some (JObj [(''client_id'', JStr ''kiosk-ui''),
                                    (''user_agent'', JStr (userAgent e))])\<rparr>;
          failed = (None, st\<lparr>isLocked := True\<rparr>, [req])
      in case fetch e req of
           None \<Rightarrow> failed
         | Some r \<Rightarrow>
             if ok r then
               (case json_body r of
                  None \<Rightarrow> failed
                | Some JNull \<Rightarrow> failed
                | Some data \<Rightarrow>
                    (read_session_id (session_key (store_file e)) data,
                     st\<lparr>sessionId := read_session_id (session_key (store_file e)) data,
                        isLocked := False\<rparr>,
                     [req]))
             else failed)"

fun supervisor_request :: "env \<Rightarrow> string \<Rightarrow> string \<Rightarrow> request" where
  "supervisor_request e sid pin =
     (case store_file e of
        Shared_types \<Rightarrow>
          \<lparr>url = API_BASE e @ ''/api/auth/login'', http_method = ''POST'',
           headers = json_headers sid,
           body = Some (JObj [(''pin'', JStr pin), (''role'', JStr ''supervisor'')])\<rparr>
      | Local_defaults \<Rightarrow>
          \<lparr>url = API_BASE e @ ''/api/v1/session/supervisor?pin='' @ encodeURIComponent e pin,
           http_method = ''POST'', headers = session_headers sid, body = None\<rparr>)"

definition authenticateSupervisor :: "env \<Rightarrow> string \<Rightarrow> KioskStore \<Rightarrow> outcome" where
  "authenticateSupervisor e pin st =
     (case truthy_session (sessionId st) of
        None \<Rightarrow> (False, st, [])
      | Some sid \<Rightarrow>
          post e (supervisor_request e sid pin) (\<lambda>s. s\<lparr>isSupervisor := True\<rparr>) st)"

definition setCurrentScreen :: "string \<Rightarrow> KioskStore \<Rightarrow> KioskStore" where
  "setCurrentScreen screen st = st\<lparr>currentScreen := screen\<rparr>"

text \<open>The store's part of \<open>toggleFullscreen\<close>; the request to the document is not state of the store.\<close>

definition toggleFullscreen :: "KioskStore \<Rightarrow> KioskStore" where
  "toggleFullscreen st = st\<lparr>isFullscreen := \<not> isFullscreen st\<rparr>"

definition toggleDebugInfo :: "KioskStore \<Rightarrow> KioskStore" where
  "toggleDebugInfo st = st\<lparr>showDebugInfo := \<not> showDebugInfo st\<rparr>"

text \<open>
  Every action of the store as an event, and the store after a series of them. Each
  action runs to its end before the next begins.
\<close>

datatype store_event =
    Do_initializeSession
  | Do_unlock string
  | Do_lock
  | Do_authenticateSupervisor string
  | Do_connectRobot "string option" "int option"
  | Do_disconnectRobot
  | Do_homeRobot
  | Do_jogRobot json
  | Do_stopRobot
  | Do_emergencyStop
  | Do_chessMove string string "string option"
  | Do_updateTelemetry RobotTelemetry
  | Do_updateSettings PartialKioskSettings
  | Do_setCurrentScreen string
  | Do_toggleFullscreen
  | Do_toggleDebugInfo

fun store_step :: "env \<Rightarrow> store_event \<Rightarrow> KioskStore \<Rightarrow> KioskStore" where
  "store_step e Do_initializeSession st = fst (snd (initializeSession e st))"
| "store_step e (Do_unlock pin) st = snd (unlock pin st)"
| "store_step e Do_lock st = lock st"
| "store_step e (Do_authenticateSupervisor pin) st = fst (snd (authenticateSupervisor e pin st))"
| "store_step e (Do_connectRobot h p) st = fst (snd (connectRobot e h p st))"
| "store_step e Do_disconnectRobot st = fst (snd (disconnectRobot e st))"
| "store_step e Do_homeRobot st = fst (snd (homeRobot e st))"
| "store_step e (Do_jogRobot j) st = fst (snd (jogRobot e j st))"
| "store_step e Do_stopRobot st = fst (snd (stopRobot e st))"
| "store_step e Do_emergencyStop st = fst (snd (emergencyStop e st))"
| "store_step e (Do_chessMove a b c) st = fst (snd (chessMove e a b c st))"
| "store_step e (Do_updateTelemetry t) st = updateTelemetry t st"
| "store_step e (Do_updateSettings n) st = updateSettings n st"
| "store_step e (Do_setCurrentScreen screen) st = setCurrentScreen screen st"
| "store_step e Do_toggleFullscreen st = toggleFullscreen st"
| "store_step e Do_toggleDebugInfo st = toggleDebugInfo st"

fun store_run :: "env \<Rightarrow> store_event list \<Rightarrow> KioskStore \<Rightarrow> KioskStore" where
  "store_run e [] st = st"
| "store_run e (ev # evs) st = store_run e evs (store_step e ev st)"

text \<open>The actions that write \<open>robotState\<close> or \<open>robotConnected\<close>.\<close>

fun writes_robot :: "store_event \<Rightarrow> bool" where
  "writes_robot (Do_connectRobot h p) = True"
| "writes_robot Do_disconnectRobot = True"
| "writes_robot (Do_updateTelemetry t) = True"
| "writes_robot _ = False"

section \<open>The jog screen (JogScreen)\<close>

text \<open>
  The component's state. The two sliders hold one-element arrays, read at index 0; the
  fields here are those elements.
\<close>

record JogScreen =
  jogMode :: string
  slider_jogSpeed :: real
  slider_jogDistance :: real
  isJogging :: bool

definition initial_JogScreen :: JogScreen where
  "initial_JogScreen =
     \<lparr>jogMode = ''tcp'', slider_jogSpeed = 1 / 10, slider_jogDistance = 1 / 100,
      isJogging = False\<rparr>"

text \<open>
  The object \<open>handleJog\<close> builds, with its keys in the order they are assigned. \<open>joint\<close>
  defaults to \<open>null\<close>. The product with a direction of 1 or -1 is exact in floating
  point, so the real product is the number sent.
\<close>

definition jogRequest_of :: "JogScreen \<Rightarrow> string \<Rightarrow> real \<Rightarrow> nat option \<Rightarrow> json" where
  "jogRequest_of js axis direction joint =
     (let delta = slider_jogDistance js * direction in
      if jogMode js = ''tcp''
      then JObj [(''mode'', JStr (jogMode js)), (''speed'', JNum (slider_jogSpeed js)),
                 (''frame'', JStr ''base''), (''axis'', JStr axis), (''delta'', JNum delta)]
      else JObj [(''mode'', JStr (jogMode js)), (''speed'', JNum (slider_jogSpeed js)),
                 (''frame'', JStr ''base''),
                 (''joint'', case joint of None \<Rightarrow> JNull | Some k \<Rightarrow> JNum (real k)),
                 (''delta'', JNum delta)])"

text \<open>
  \<open>handleJog\<close> returns the component's state, the store and the requests issued.
  \<open>isJogging\<close> is set while the request is under way and cleared in \<open>finally\<close>.
\<close>

definition handleJog ::
  "env \<Rightarrow> string \<Rightarrow> real \<Rightarrow> nat option \<Rightarrow> KioskStore \<Rightarrow> JogScreen
     \<Rightarrow> JogScreen \<times> KioskStore \<times> request list" where
  "handleJog e axis direction joint st js =
     (if \<not> robotConnected st \<or> robotState st \<noteq> ''READY'' then (js, st, [])
      else case jogRobot e (jogRequest_of js axis direction joint) st of
             (r, st', reqs) \<Rightarrow> (js\<lparr>isJogging := False\<rparr>, st', reqs))"

definition handleHome :: "env \<Rightarrow> KioskStore \<Rightarrow> outcome" where
  "handleHome e st = homeRobot e st"

definition handleStop :: "env \<Rightarrow> KioskStore \<Rightarrow> outcome" where
  "handleStop e st = stopRobot e st"

definition handleEmergencyStop :: "env \<Rightarrow> KioskStore \<Rightarrow> outcome" where
  "handleEmergencyStop e st = emergencyStop e st"

text \<open>The signed delta a request carries.\<close>

definition request_delta :: "request \<Rightarrow> json option" where
  "request_delta req = (case body req of None \<Rightarrow> None | Some b \<Rightarrow> json_field ''delta'' b)"

definition request_axis :: "request \<Rightarrow> json option" where
  "request_axis req = (case body req of None \<Rightarrow> None | Some b \<Rightarrow> json_field ''axis'' b)"

text \<open>
  Modelled from the spec: the target pose a Cartesian jog requests. The kiosk sends the
  axis and the signed delta only; the robot server, which is not among the sources, turns
  them into a target. Following the scenario of the specification, the target is the
  starting pose moved by the delta along the axis.
\<close>

definition jog_target :: "Pose6D \<Rightarrow> string \<Rightarrow> real \<Rightarrow> Pose6D option" where
  "jog_target p axis delta =
     (if axis = ''x'' then Some (p\<lparr>p_x := p_x p + delta\<rparr>)
      else if axis = ''y'' then Some (p\<lparr>p_y := p_y p + delta\<rparr>)
      else if axis = ''z'' then Some (p\<lparr>p_z := p_z p + delta\<rparr>)
      else if axis = ''rx'' then Some (p\<lparr>p_rx := p_rx p + delta\<rparr>)
      else if axis = ''ry'' then Some (p\<lparr>p_ry := p_ry p + delta\<rparr>)
      else if axis = ''rz'' then Some (p\<lparr>p_rz := p_rz p + delta\<rparr>)
      else None)"

definition requested_target :: "Pose6D \<Rightarrow> request \<Rightarrow> Pose6D option" where
  "requested_target p req =
     (case (request_axis req, request_delta req) of
        (Some (JStr axis), Some (JNum delta)) \<Rightarrow> jog_target p axis delta
      | _ \<Rightarrow> None)"

text \<open>The scenario of the specification: a ready robot at a known pose, a session open.\<close>

definition scenario_pose :: Pose6D where
  "scenario_pose = \<lparr>p_x = 0, p_y = - (1 / 2), p_z = 3 / 10, p_rx = 0, p_ry = 0, p_rz = 0\<rparr>"

definition scenario_store :: KioskStore where
  "scenario_store =
     initial_store\<lparr>sessionId := Some ''test-session-123'', isLocked := False,
       robotConnected := True, robotState := ''READY''\<rparr>"

section \<open>The WebSocket provider (useWebSocket)\<close>



























section \<open>The session gate\<close>

text \<open>
  Modelled from the spec: the whole SessionGate. It belongs to the robot server, which is
  not among the sources; only the declarations \<open>UserRole\<close>, \<open>SessionInfo\<close> and
  \<open>SecurityConfig\<close> of the shared types are. The session has the fields the
  specification's data model names (id, role, creation time, last-activity time,
  controlling-flag) and the lock the inactivity rule sets. Each operation is one
  indivisible step, as the specification requires of \<open>acquireControl\<close> (check-then-set
  as one operation); calls made concurrently therefore take effect in some order, and a
  statement about all orders of the calls is a statement about all concurrent runs.
  Where the specification is silent the model takes the weakest reading: an operation on
  an unknown session fails with \<open>NoSuchSession\<close> and changes nothing, and acquiring does
  not count as activity.
\<close>

datatype UserRole = operator | supervisor | admin

record Session =
  s_id :: nat
  s_role :: UserRole
  s_created :: nat
  s_lastActivity :: nat
  s_controlling :: bool
  s_locked :: bool

record SessionGate =
  sessions :: "Session list"
  next_id :: nat
  inactivity_timeout :: nat
  pins :: SecurityConfig

datatype gate_error = AlreadyControlled | NoSuchSession | BadCredential

definition empty_gate :: "nat \<Rightarrow> SecurityConfig \<Rightarrow> SessionGate" where
  "empty_gate tmo cfg = \<lparr>sessions = [], next_id = 0, inactivity_timeout = tmo, pins = cfg\<rparr>"

definition known :: "nat \<Rightarrow> SessionGate \<Rightarrow> bool" where
  "known sid g = (sid \<in> set (map s_id (sessions g)))"

definition on_session :: "nat \<Rightarrow> (Session \<Rightarrow> Session) \<Rightarrow> SessionGate \<Rightarrow> SessionGate" where
  "on_session sid f g =
     g\<lparr>sessions := map (\<lambda>s. if s_id s = sid then f s else s) (sessions g)\<rparr>"

text \<open>A session has expired when its inactivity exceeds the configured timeout.\<close>

definition expired :: "nat \<Rightarrow> nat \<Rightarrow> Session \<Rightarrow> bool" where
  "expired tmo now s = (s_lastActivity s + tmo < now)"

text \<open>\<open>createSession(clientId) -> SessionId\<close>: a fresh id, role operator, no control.\<close>

definition createSession :: "string \<Rightarrow> nat \<Rightarrow> SessionGate \<Rightarrow> nat \<times> SessionGate" where
  "createSession clientId now g =
     (next_id g,
      g\<lparr>sessions := sessions g @
           [\<lparr>s_id = next_id g, s_role = operator, s_created = now, s_lastActivity = now,
             s_controlling = False, s_locked = True\<rparr>],
        next_id := Suc (next_id g)\<rparr>)"

definition role_of_pin :: "SecurityConfig \<Rightarrow> string \<Rightarrow> UserRole option" where
  "role_of_pin cfg pin =
     (if pin = operatorPin cfg then Some operator
      else if pin = supervisorPin cfg then Some supervisor
      else if pin = adminPin cfg then Some admin
      else None)"

text \<open>
  \<open>authorize(sessionId, pin) -> Role\<close>: sets the role and unlocks; it neither grants nor
  revokes control.
\<close>

definition authorize ::
  "nat \<Rightarrow> string \<Rightarrow> nat \<Rightarrow> SessionGate \<Rightarrow> gate_error + (UserRole \<times> SessionGate)" where
  "authorize sid pin now g =
     (if \<not> known sid g then Inl NoSuchSession
      else case role_of_pin (pins g) pin of
             None \<Rightarrow> Inl BadCredential
           | Some r \<Rightarrow>
               Inr (r, on_session sid
                         (\<lambda>s. s\<lparr>s_role := r, s_locked := False, s_lastActivity := now\<rparr>) g))"

text \<open>
  Modelled from the spec: \<open>acquireControl\<close> fails with \<open>AlreadyControlled\<close> if another
  session that has not expired holds control. Otherwise the caller holds it, and a holder
  that had expired has lost it (inactivity beyond the timeout releases control).
\<close>

definition held_by_other :: "nat \<Rightarrow> nat \<Rightarrow> SessionGate \<Rightarrow> bool" where
  "held_by_other sid now g =
     list_ex (\<lambda>s. s_id s \<noteq> sid \<and> s_controlling s \<and> \<not> expired (inactivity_timeout g) now s)
       (sessions g)"

definition acquireControl :: "nat \<Rightarrow> nat \<Rightarrow> SessionGate \<Rightarrow> gate_error + SessionGate" where
  "acquireControl sid now g =
     (if \<not> known sid g then Inl NoSuchSession
      else if held_by_other sid now g then Inl AlreadyControlled
      else Inr (g\<lparr>sessions := map (\<lambda>s. s\<lparr>s_controlling := (s_id s = sid)\<rparr>) (sessions g)\<rparr>))"

definition releaseControl :: "nat \<Rightarrow> SessionGate \<Rightarrow> SessionGate" where
  "releaseControl sid g = on_session sid (\<lambda>s. s\<lparr>s_controlling := False\<rparr>) g"

definition touch :: "nat \<Rightarrow> nat \<Rightarrow> SessionGate \<Rightarrow> SessionGate" where
  "touch sid now g = on_session sid (\<lambda>s. s\<lparr>s_lastActivity := now\<rparr>) g"

text \<open>Inactivity beyond the timeout releases control and locks the session.\<close>

definition expire_sessions :: "nat \<Rightarrow> SessionGate \<Rightarrow> SessionGate" where
  "expire_sessions now g =
     g\<lparr>sessions :=
         map (\<lambda>s. if expired (inactivity_timeout g) now s
                   then s\<lparr>s_controlling := False, s_locked := True\<rparr> else s)
           (sessions g)\<rparr>"

text \<open>Destroying a session on explicit lock.\<close>

definition destroySession :: "nat \<Rightarrow> SessionGate \<Rightarrow> SessionGate" where
  "destroySession sid g = g\<lparr>sessions := filter (\<lambda>s. s_id s \<noteq> sid) (sessions g)\<rparr>"

datatype gate_op =
    Create string nat
  | Authorize nat string nat
  | Acquire nat nat
  | Release nat
  | Touch nat nat
  | Expire nat
  | Destroy nat

fun gate_step :: "gate_op \<Rightarrow> SessionGate \<Rightarrow> SessionGate" where
  "gate_step (Create clientId now) g = snd (createSession clientId now g)"
| "gate_step (Authorize sid pin now) g =
     (case authorize sid pin now g of Inl err \<Rightarrow> g | Inr (r, g') \<Rightarrow> g')"
| "gate_step (Acquire sid now) g =
     (case acquireControl sid now g of Inl err \<Rightarrow> g | Inr g' \<Rightarrow> g')"
| "gate_step (Release sid) g = releaseControl sid g"
| "gate_step (Touch sid now) g = touch sid now g"
| "gate_step (Expire now) g = expire_sessions now g"
| "gate_step (Destroy sid) g = destroySession sid g"

fun gate_run :: "gate_op list \<Rightarrow> SessionGate \<Rightarrow> SessionGate" where
  "gate_run [] g = g"
| "gate_run (x # xs) g = gate_run xs (gate_step x g)"

definition controllers :: "SessionGate \<Rightarrow> nat list" where
  "controllers g = map s_id (filter s_controlling (sessions g))"

text \<open>
  A race: the sessions of \<open>callers\<close> call \<open>acquireControl\<close> at the same time \<open>now\<close>; the
  list gives the order in which the calls take effect. The result of each call, in that
  order, and the gate afterwards.
\<close>

fun race :: "nat list \<Rightarrow> nat \<Rightarrow> SessionGate \<Rightarrow> (gate_error + unit) list \<times> SessionGate" where
  "race [] now g = ([], g)"
| "race (sid # sids) now g =
     (case acquireControl sid now g of
        Inl err \<Rightarrow> (case race sids now g of (rs, g') \<Rightarrow> (Inl err # rs, g'))
      | Inr g1 \<Rightarrow> (case race sids now g1 of (rs, g') \<Rightarrow> (Inr () # rs, g')))"

definition gate_wf :: "SessionGate \<Rightarrow> bool" where
  "gate_wf g =
     (distinct (map s_id (sessions g)) \<and> list_all (\<lambda>i. i < next_id g) (map s_id (sessions g)) \<and>
      length (controllers g) \<le> 1)"

text \<open>Three sessions created and authorised at time 0, none in control, timeout 300.\<close>

definition three_sessions :: SessionGate where
  "three_sessions =
     gate_run
       [Create ''kiosk-a'' 0, Create ''kiosk-b'' 0, Create ''kiosk-c'' 0,
        Authorize 0 ''1234'' 0, Authorize 1 ''1234'' 0, Authorize 2 ''5678'' 0]
       (empty_gate 300 DEFAULT_SECURITY_CONFIG)"

section \<open>The motion executor and the safety state machine\<close>

text \<open>
  Modelled from the spec: the MotionExecutor and the SafetyStateMachine. They belong to
  the robot server, which is not among the sources; the kiosk only calls them through the
  command API, and the shared types only declare the requests (\<open>JogRequest\<close>,
  \<open>MoveRequest\<close>, \<open>HomeRobotRequest\<close>, \<open>StopRobotRequest\<close>) and the limits
  (\<open>RobotParameters\<close>). The model follows the specification's component design: every
  operation but \<open>stop\<close> is (1) rejected with \<open>SafetyViolation\<close> when the gate is closed,
  (2) rejected when its target lies outside the limits, (3) clamped in speed and
  acceleration, (4) serialised through the single in-flight slot, a jog being rejected
  with \<open>Busy\<close> and a move or home queued (a queue of one). \<open>stop\<close> is always accepted; an
  emergency stop also forces the safety mode to SYSTEM_EMERGENCY_STOP at once and cancels
  what is in flight or queued. An accepted command that is transmitted sets the robot
  state to RUNNING. A queued command is issued, through the same checks, when the command
  in flight completes. Controller feedback replaces the local state.

  What is transmitted to the connection is recorded, each entry with the safety mode and
  the robot state at the moment of transmission (the probe on a mock connection of the
  specification's testable properties).
\<close>

datatype jog_axis =
    Axis_x | Axis_y | Axis_z | Axis_rx | Axis_ry | Axis_rz
  | Axis_base | Axis_shoulder | Axis_elbow | Axis_wrist1 | Axis_wrist2 | Axis_wrist3

fun jog_axis_literal :: "jog_axis \<Rightarrow> string" where
  "jog_axis_literal Axis_x = ''x''"
| "jog_axis_literal Axis_y = ''y''"
| "jog_axis_literal Axis_z = ''z''"
| "jog_axis_literal Axis_rx = ''rx''"
| "jog_axis_literal Axis_ry = ''ry''"
| "jog_axis_literal Axis_rz = ''rz''"
| "jog_axis_literal Axis_base = ''base''"
| "jog_axis_literal Axis_shoulder = ''shoulder''"
| "jog_axis_literal Axis_elbow = ''elbow''"
| "jog_axis_literal Axis_wrist1 = ''wrist1''"
| "jog_axis_literal Axis_wrist2 = ''wrist2''"
| "jog_axis_literal Axis_wrist3 = ''wrist3''"

datatype jog_direction = positive | negative

datatype move_target = Pose_target Pose6D | Joint_target JointPositions

datatype command =
    Jog jog_axis jog_direction real real
  | Move move_target real real real
  | Home real real
  | Stop bool

datatype motion_error = SafetyViolation | WorkspaceLimitExceeded | JointLimitExceeded | Busy

record motion_config =
  params :: RobotParameters
  home_joints :: JointPositions

record executor =
  ex_robotState :: RobotState
  ex_safetyMode :: SafetyMode
  ex_pose :: Pose6D
  ex_joints :: JointPositions
  in_flight :: "command option"
  queued :: "command option"
  transmitted :: "(command \<times> SafetyMode \<times> RobotState) list"

fun is_stop :: "command \<Rightarrow> bool" where
  "is_stop (Stop emergency) = True"
| "is_stop _ = False"

definition mode_permits :: "SafetyMode \<Rightarrow> bool" where
  "mode_permits m = (m = SM_NORMAL \<or> m = SM_REDUCED)"

definition state_forbids :: "RobotState \<Rightarrow> bool" where
  "state_forbids r =
     (r = RS_EMERGENCY_STOP \<or> r = RS_PROTECTIVE_STOP \<or> r = RS_FAULT \<or> r = RS_ERROR)"

text \<open>
  Modelled from the spec: the gate is open when the safety mode is NORMAL or REDUCED and
  the robot state is none of EMERGENCY_STOP, PROTECTIVE_STOP, FAULT, ERROR.
\<close>

definition gate_open :: "executor \<Rightarrow> bool" where
  "gate_open ex = (mode_permits (ex_safetyMode ex) \<and> \<not> state_forbids (ex_robotState ex))"

definition emergency_family :: "SafetyMode \<Rightarrow> bool" where
  "emergency_family m = (m = SM_SYSTEM_EMERGENCY_STOP \<or> m = SM_ROBOT_EMERGENCY_STOP)"

fun signed_distance :: "jog_direction \<Rightarrow> real \<Rightarrow> real" where
  "signed_distance positive d = d"
| "signed_distance negative d = - d"

fun jog_joints :: "JointPositions \<Rightarrow> jog_axis \<Rightarrow> real \<Rightarrow> JointPositions" where
  "jog_joints j Axis_base d = j\<lparr>base := base j + d\<rparr>"
| "jog_joints j Axis_shoulder d = j\<lparr>shoulder := shoulder j + d\<rparr>"
| "jog_joints j Axis_elbow d = j\<lparr>elbow := elbow j + d\<rparr>"
| "jog_joints j Axis_wrist1 d = j\<lparr>wrist1 := wrist1 j + d\<rparr>"
| "jog_joints j Axis_wrist2 d = j\<lparr>wrist2 := wrist2 j + d\<rparr>"
| "jog_joints j Axis_wrist3 d = j\<lparr>wrist3 := wrist3 j + d\<rparr>"
| "jog_joints j _ d = j"

fun target_of :: "motion_config \<Rightarrow> executor \<Rightarrow> command \<Rightarrow> move_target option" where
  "target_of cfg ex (Jog a dir d sp) =
     (case jog_target (ex_pose ex) (jog_axis_literal a) (signed_distance dir d) of
        Some p \<Rightarrow> Some (Pose_target p)
      | None \<Rightarrow> Some (Joint_target (jog_joints (ex_joints ex) a (signed_distance dir d))))"
| "target_of cfg ex (Move t sp ac bl) = Some t"
| "target_of cfg ex (Home sp ac) = Some (Joint_target (home_joints cfg))"
| "target_of cfg ex (Stop emergency) = None"

definition in_workspace :: "WorkspaceLimits \<Rightarrow> Pose6D \<Rightarrow> bool" where
  "in_workspace w p =
     (v_x (ws_min w) \<le> p_x p \<and> p_x p \<le> v_x (ws_max w) \<and>
      v_y (ws_min w) \<le> p_y p \<and> p_y p \<le> v_y (ws_max w) \<and>
      v_z (ws_min w) \<le> p_z p \<and> p_z p \<le> v_z (ws_max w))"

definition in_joint_limits :: "JointLimits \<Rightarrow> JointPositions \<Rightarrow> bool" where
  "in_joint_limits l j =
     (base (jl_min l) \<le> base j \<and> base j \<le> base (jl_max l) \<and>
      shoulder (jl_min l) \<le> shoulder j \<and> shoulder j \<le> shoulder (jl_max l) \<and>
      elbow (jl_min l) \<le> elbow j \<and> elbow j \<le> elbow (jl_max l) \<and>
      wrist1 (jl_min l) \<le> wrist1 j \<and> wrist1 j \<le> wrist1 (jl_max l) \<and>
      wrist2 (jl_min l) \<le> wrist2 j \<and> wrist2 j \<le> wrist2 (jl_max l) \<and>
      wrist3 (jl_min l) \<le> wrist3 j \<and> wrist3 j \<le> wrist3 (jl_max l))"

fun limit_error :: "SafetyLimits \<Rightarrow> move_target option \<Rightarrow> motion_error option" where
  "limit_error l None = None"
| "limit_error l (Some (Pose_target p)) =
     (if in_workspace (workspace l) p then None else Some WorkspaceLimitExceeded)"
| "limit_error l (Some (Joint_target j)) =
     (if in_joint_limits (jointLimits l) j then None else Some JointLimitExceeded)"

fun clamp_command :: "RobotParameters \<Rightarrow> command \<Rightarrow> command" where
  "clamp_command ps (Jog a dir d sp) = Jog a dir d (min sp (maxSpeed ps))"
| "clamp_command ps (Move t sp ac bl) =
     Move t (min sp (maxSpeed ps)) (min ac (maxAcceleration ps)) bl"
| "clamp_command ps (Home sp ac) = Home (min sp (maxSpeed ps)) (min ac (maxAcceleration ps))"
| "clamp_command ps (Stop emergency) = Stop emergency"

definition transmit :: "command \<Rightarrow> executor \<Rightarrow> executor" where
  "transmit c ex = ex\<lparr>transmitted := transmitted ex @ [(c, ex_safetyMode ex, ex_robotState ex)]\<rparr>"

text \<open>
  Modelled from the spec: the in-flight slot, once the gate and the limits have been
  passed. By default a jog is rejected while a command is in flight and a move or a home
  waits in a queue of one.
\<close>

fun through_slot :: "command \<Rightarrow> command \<Rightarrow> executor \<Rightarrow> (motion_error + unit) \<times> executor" where
  "through_slot c c' ex =
     (if in_flight ex = None
        then (Inr (), (transmit c' ex)\<lparr>in_flight := Some c', ex_robotState := RS_RUNNING\<rparr>)
      else case c of
             Jog a dir d sp \<Rightarrow> (Inl Busy, ex)
           | _ \<Rightarrow> if queued ex = None then (Inr (), ex\<lparr>queued := Some c'\<rparr>)
                  else (Inl Busy, ex))"

text \<open>
  Modelled from the spec: an operation of the executor. \<open>stop\<close> is exempt from the gate it
  enforces; every other operation passes the gate, the limits, the clamping and the slot,
  in this order.
\<close>

fun execute :: "motion_config \<Rightarrow> command \<Rightarrow> executor \<Rightarrow> (motion_error + unit) \<times> executor" where
  "execute cfg (Stop emergency) ex =
     (Inr (),
      if emergency
        then (transmit (Stop True) ex)
               \<lparr>ex_safetyMode := SM_SYSTEM_EMERGENCY_STOP, in_flight := None, queued := None\<rparr>
        else transmit (Stop False) ex)"
| "execute cfg c ex =
     (if \<not> gate_open ex then (Inl SafetyViolation, ex)
      else case limit_error (safetyLimits (params cfg)) (target_of cfg ex c) of
             Some err \<Rightarrow> (Inl err, ex)
           | None \<Rightarrow> through_slot c (clamp_command (params cfg) c) ex)"

definition complete :: "motion_config \<Rightarrow> executor \<Rightarrow> executor" where
  "complete cfg ex =
     (case queued ex of
        None \<Rightarrow> ex\<lparr>in_flight := None\<rparr>
      | Some c \<Rightarrow> snd (execute cfg c (ex\<lparr>in_flight := None, queued := None\<rparr>)))"

definition feedback ::
  "RobotState \<Rightarrow> SafetyMode \<Rightarrow> Pose6D \<Rightarrow> JointPositions \<Rightarrow> executor \<Rightarrow> executor" where
  "feedback r m p j ex = ex\<lparr>ex_robotState := r, ex_safetyMode := m, ex_pose := p, ex_joints := j\<rparr>"

datatype exec_event =
    Issue command
  | Completed
  | Feedback RobotState SafetyMode Pose6D JointPositions

fun exec_step :: "motion_config \<Rightarrow> exec_event \<Rightarrow> executor \<Rightarrow> executor" where
  "exec_step cfg (Issue c) ex = snd (execute cfg c ex)"
| "exec_step cfg Completed ex = complete cfg ex"
| "exec_step cfg (Feedback r m p j) ex = feedback r m p j ex"

fun exec_run :: "motion_config \<Rightarrow> exec_event list \<Rightarrow> executor \<Rightarrow> executor" where
  "exec_run cfg [] ex = ex"
| "exec_run cfg (ev # evs) ex = exec_run cfg evs (exec_step cfg ev ex)"

text \<open>Commands issued one after the other with nothing in between: the results and the state.\<close>

fun issue_all ::
  "motion_config \<Rightarrow> command list \<Rightarrow> executor \<Rightarrow> (motion_error + unit) list \<times> executor" where
  "issue_all cfg [] ex = ([], ex)"
| "issue_all cfg (c # cs) ex =
     (case execute cfg c ex of
        (r, ex1) \<Rightarrow> (case issue_all cfg cs ex1 of (rs, ex2) \<Rightarrow> (r # rs, ex2)))"

text \<open>An entry of the record is in order when it is a stop or was sent through an open gate.\<close>

fun sent_through_gate :: "command \<times> SafetyMode \<times> RobotState \<Rightarrow> bool" where
  "sent_through_gate (c, m, r) = (is_stop c \<or> (mode_permits m \<and> \<not> state_forbids r))"

definition default_motion_config :: motion_config where
  "default_motion_config = \<lparr>params = DEFAULT_ROBOT_PARAMETERS, home_joints = all_joints 0\<rparr>"

definition idle_executor :: executor where
  "idle_executor =
     \<lparr>ex_robotState = RS_IDLE, ex_safetyMode = SM_NORMAL, ex_pose = scenario_pose,
      ex_joints = all_joints 0, in_flight = None, queued = None, transmitted = []\<rparr>"

text \<open>An executor after an emergency stop, and commands issued to it.\<close>

definition stopped_executor :: executor where
  "stopped_executor = snd (execute default_motion_config (Stop True) idle_executor)"

definition example_jog :: command where
  "example_jog = Jog Axis_x positive (1 / 100) (1 / 10)"

definition example_commands :: "command list" where
  "example_commands =
     [example_jog, Stop False, Move (Pose_target scenario_pose) 1 1 0, Home 1 1, Stop True,
      Jog Axis_base negative 1 1]"

definition example_events :: "exec_event list" where
  "example_events =
     [Issue example_jog,
      Feedback RS_RUNNING SM_PROTECTIVE_STOP scenario_pose (all_joints 0),
      Completed, Issue (Home 1 1), Issue (Stop False)]"

text \<open>Telemetry samples that differ in the robot state and the connection flag only.\<close>

definition sample :: "string \<Rightarrow> bool \<Rightarrow> RobotTelemetry" where
  "sample state is_connected =
     \<lparr>t_timestamp = 0, t_connectionState = ''connected'', t_robotState = state,
      t_safetyMode = ''NORMAL'', tcpPosition = scenario_pose, jointPositions = all_joints 0,
      jointVelocities = all_joints 0, jointCurrents = all_joints 0,
      jointTemperatures = all_joints 0, isEmergencyStop = False, isProtectiveStop = False,
      isProgramRunning = False, isRobotConnected = is_connected, currentProgram = None,
      programState = None, lastError = None, errorCode = None\<rparr>"

definition no_new_settings :: PartialKioskSettings where
  "no_new_settings =
     \<lparr>new_robot = None, new_security = None, new_interface = None, new_system = None,
      new_robotParameters = None\<rparr>"

definition quiet_events :: "store_event list" where
  "quiet_events =
     [Do_homeRobot, Do_jogRobot (JObj [(''delta'', JNum 1)]), Do_unlock ''5678'',
      Do_stopRobot, Do_updateSettings no_new_settings, Do_toggleDebugInfo,
      Do_chessMove ''e2'' ''e4'' None, Do_lock, Do_initializeSession]"

text \<open>Concrete surroundings for the examples: a server that answers every request with success.\<close>

definition example_env :: env where
  "example_env =
     \<lparr>API_BASE = ''http://localhost:8000'', store_file = Shared_types,
      fetch = (\<lambda>req. Some \<lparr>ok = True,
                             json_body = Some (JObj [(''sessionId'', JStr ''test-session-123'')])\<rparr>),
      userAgent = ''kiosk'', encodeURIComponent = (\<lambda>pin. pin)\<rparr>"

text \<open>The store after the settings have given the supervisor the operator's PIN.\<close>

definition equal_pins_store :: KioskStore where
  "equal_pins_store =
     updateSettings
       \<lparr>new_robot = None,
        new_security = Some (DEFAULT_SECURITY_CONFIG\<lparr>supervisorPin := ''1234''\<rparr>),
        new_interface = None, new_system = None, new_robotParameters = None\<rparr>
       initial_store"

section \<open>Theorems\<close>

lemma RobotState_variants_complete: "x \<in> set RobotState_variants"
  by (cases x) (simp_all add: RobotState_variants_def)

lemma SafetyMode_variants_complete: "x \<in> set SafetyMode_variants"
  by (cases x) (simp_all add: SafetyMode_variants_def)


text \<open>
  C3, as the specification states it, fails: the declaration has the variant
  \<open>VALIDATE_JOINT_ID\<close>, which the specification does not list, it has no variant named
  \<open>UNDEFINED\<close> (the literal is \<open>UNDEFINED_SAFETY_MODE\<close>), and it has eleven variants.
\<close>

theorem SafetyMode_ten_variants_counterexample:
  "SafetyMode_literal SM_VALIDATE_JOINT_ID \<notin> set spec_SafetyMode_names \<and>
   ''UNDEFINED'' \<notin> set (map SafetyMode_literal SafetyMode_variants) \<and>
   length SafetyMode_variants \<noteq> 10"
  by (simp add: spec_SafetyMode_names_def SafetyMode_variants_def)

text \<open>
  C3, amended: the SafetyMode union consists of exactly eleven variants, with the literals
  NORMAL, REDUCED, PROTECTIVE_STOP, RECOVERY, SAFEGUARD_STOP, SYSTEM_EMERGENCY_STOP,
  ROBOT_EMERGENCY_STOP, VIOLATION, FAULT, VALIDATE_JOINT_ID and UNDEFINED_SAFETY_MODE;
  every value of the type is one of them and their literals are pairwise different.
\<close>

theorem SafetyMode_eleven_variants:
  "set SafetyMode_variants = UNIV \<and>
   length SafetyMode_variants = 11 \<and>
   distinct (map SafetyMode_literal SafetyMode_variants) \<and>
   map SafetyMode_literal SafetyMode_variants =
     [''NORMAL'', ''REDUCED'', ''PROTECTIVE_STOP'', ''RECOVERY'', ''SAFEGUARD_STOP'',
      ''SYSTEM_EMERGENCY_STOP'', ''ROBOT_EMERGENCY_STOP'', ''VIOLATION'', ''FAULT'',
      ''VALIDATE_JOINT_ID'', ''UNDEFINED_SAFETY_MODE'']"
proof -
  have "set SafetyMode_variants = UNIV"
    using SafetyMode_variants_complete by blast
  moreover have "length SafetyMode_variants = 11"
    by (simp add: SafetyMode_variants_def)
  moreover have "map SafetyMode_literal SafetyMode_variants =
     [''NORMAL'', ''REDUCED'', ''PROTECTIVE_STOP'', ''RECOVERY'', ''SAFEGUARD_STOP'',
      ''SYSTEM_EMERGENCY_STOP'', ''ROBOT_EMERGENCY_STOP'', ''VIOLATION'', ''FAULT'',
      ''VALIDATE_JOINT_ID'', ''UNDEFINED_SAFETY_MODE'']"
    by (simp add: SafetyMode_variants_def)
  moreover from this have "distinct (map SafetyMode_literal SafetyMode_variants)"
    by simp
  ultimately show ?thesis by blast
qed

text \<open>
  C4, as the specification states it, fails: the fifteen names it lists are the names of
  the declaration, but the declaration therefore has fifteen variants, not fourteen.
\<close>

theorem RobotState_fourteen_variants_counterexample:
  "map RobotState_literal RobotState_variants = spec_RobotState_names \<and>
   distinct spec_RobotState_names \<and>
   length RobotState_variants \<noteq> spec_RobotState_count"
  by (simp add: spec_RobotState_names_def RobotState_variants_def spec_RobotState_count_def)

text \<open>
  C4, amended: the RobotState union has exactly fifteen variants, namely IDLE, RUNNING,
  PAUSED, STOPPED, ERROR, EMERGENCY_STOP, PROTECTIVE_STOP, SAFEGUARD_STOP, VIOLATION,
  FAULT, BOOTING, POWER_OFF, POWER_ON, BACKDRIVE and UPDATING_FIRMWARE, and no others.
\<close>

theorem RobotState_fifteen_variants:
  "set RobotState_variants = UNIV \<and>
   length RobotState_variants = 15 \<and>
   distinct (map RobotState_literal RobotState_variants) \<and>
   map RobotState_literal RobotState_variants =
     [''IDLE'', ''RUNNING'', ''PAUSED'', ''STOPPED'', ''ERROR'', ''EMERGENCY_STOP'',
      ''PROTECTIVE_STOP'', ''SAFEGUARD_STOP'', ''VIOLATION'', ''FAULT'', ''BOOTING'',
      ''POWER_OFF'', ''POWER_ON'', ''BACKDRIVE'', ''UPDATING_FIRMWARE'']"
proof -
  have "set RobotState_variants = UNIV"
    using RobotState_variants_complete by blast
  moreover have "length RobotState_variants = 15"
    by (simp add: RobotState_variants_def)
  moreover have "map RobotState_literal RobotState_variants =
     [''IDLE'', ''RUNNING'', ''PAUSED'', ''STOPPED'', ''ERROR'', ''EMERGENCY_STOP'',
      ''PROTECTIVE_STOP'', ''SAFEGUARD_STOP'', ''VIOLATION'', ''FAULT'', ''BOOTING'',
      ''POWER_OFF'', ''POWER_ON'', ''BACKDRIVE'', ''UPDATING_FIRMWARE'']"
    by (simp add: RobotState_variants_def)
  moreover from this have "distinct (map RobotState_literal RobotState_variants)"
    by simp
  ultimately show ?thesis by blast
qed



subsection \<open>The kiosk store\<close>

text \<open>
  C8: for every robot-control action of the kiosk store (connectRobot, disconnectRobot,
  homeRobot, jogRobot, stopRobot, emergencyStop, chessMove), in either file of the store,
  if sessionId is null the action returns false, issues no HTTP request and leaves the
  store unchanged.
\<close>

theorem actions_without_session:
  assumes "sessionId st = None"
  shows "connectRobot e h p st = (False, st, []) \<and>
         disconnectRobot e st = (False, st, []) \<and>
         homeRobot e st = (False, st, []) \<and>
         jogRobot e j st = (False, st, []) \<and>
         stopRobot e st = (False, st, []) \<and>
         emergencyStop e st = (False, st, []) \<and>
         chessMove e a b c st = (False, st, [])"
  using assms
  by (simp add: connectRobot_def disconnectRobot_def homeRobot_def jogRobot_def
      stopRobot_def emergencyStop_def chessMove_def)

theorem actions_without_session_witness:
  "sessionId initial_store = None \<and>
   connectRobot example_env (Some ''10.0.0.2'') (Some 30004) initial_store
     = (False, initial_store, []) \<and>
   disconnectRobot example_env initial_store = (False, initial_store, []) \<and>
   homeRobot example_env initial_store = (False, initial_store, []) \<and>
   jogRobot example_env (JObj [(''delta'', JNum 1)]) initial_store
     = (False, initial_store, []) \<and>
   stopRobot example_env initial_store = (False, initial_store, []) \<and>
   emergencyStop example_env initial_store = (False, initial_store, []) \<and>
   chessMove example_env ''e2'' ''e4'' None initial_store = (False, initial_store, [])"
proof -
  have h: "sessionId initial_store = None"
    by (simp add: initial_store_def)
  show ?thesis
    using h actions_without_session [OF h, of example_env "Some ''10.0.0.2''" "Some 30004"
        "JObj [(''delta'', JNum 1)]" "''e2''" "''e4''" None]
    by simp
qed

text \<open>
  C9, as stated, fails where the settings give both roles the same PIN: the operator
  branch is tried first, so unlocking with the supervisor's PIN leaves isSupervisor false.
\<close>

theorem unlock_supervisor_counterexample:
  "''1234'' = supervisorPin (security (settings equal_pins_store)) \<and>
   fst (unlock ''1234'' equal_pins_store) \<and>
   \<not> isSupervisor (snd (unlock ''1234'' equal_pins_store))"
  by (simp add: unlock_def equal_pins_store_def updateSettings_def initial_store_def
      DEFAULT_SECURITY_CONFIG_def)

text \<open>
  C9, amended: unlock(pin) returns true if and only if pin equals the configured
  operatorPin or supervisorPin. On operatorPin it sets isLocked=false and
  isSupervisor=false; on a supervisorPin that differs from operatorPin it sets
  isLocked=false and isSupervisor=true; on any other pin it returns false and leaves the
  store unchanged.
\<close>

theorem unlock_cases:
  "fst (unlock pin st) =
     (pin = operatorPin (security (settings st)) \<or> pin = supervisorPin (security (settings st))) \<and>
   (pin = operatorPin (security (settings st)) \<longrightarrow>
      snd (unlock pin st) = st\<lparr>isLocked := False, isSupervisor := False\<rparr>) \<and>
   (pin \<noteq> operatorPin (security (settings st)) \<and> pin = supervisorPin (security (settings st)) \<longrightarrow>
      snd (unlock pin st) = st\<lparr>isLocked := False, isSupervisor := True\<rparr>) \<and>
   (pin \<noteq> operatorPin (security (settings st)) \<and> pin \<noteq> supervisorPin (security (settings st)) \<longrightarrow>
      unlock pin st = (False, st))"
  by (simp add: unlock_def)

theorem unlock_cases_witness:
  "unlock ''1234'' initial_store
     = (True, initial_store\<lparr>isLocked := False, isSupervisor := False\<rparr>) \<and>
   unlock ''5678'' initial_store
     = (True, initial_store\<lparr>isLocked := False, isSupervisor := True\<rparr>) \<and>
   unlock ''9999'' initial_store = (False, initial_store)"
proof -
  have pins: "operatorPin (security (settings initial_store)) = ''1234''"
    "supervisorPin (security (settings initial_store)) = ''5678''"
    by (simp_all add: initial_store_def DEFAULT_SECURITY_CONFIG_def)
  have "unlock ''1234'' initial_store
     = (True, initial_store\<lparr>isLocked := False, isSupervisor := False\<rparr>)"
    using unlock_cases [of "''1234''" initial_store] pins
    by (simp add: prod_eq_iff)
  moreover have "unlock ''5678'' initial_store
     = (True, initial_store\<lparr>isLocked := False, isSupervisor := True\<rparr>)"
    using unlock_cases [of "''5678''" initial_store] pins
    by (simp add: prod_eq_iff)
  moreover have "unlock ''9999'' initial_store = (False, initial_store)"
    using unlock_cases [of "''9999''" initial_store] pins
    by simp
  ultimately show ?thesis by blast
qed

lemma post_robot_fields:
  assumes "\<And>s. robotState (f s) = robotState s" and "\<And>s. robotConnected (f s) = robotConnected s"
    and "\<And>s. telemetry (f s) = telemetry s"
  shows "robotState (fst (snd (post e req f st))) = robotState st \<and>
         robotConnected (fst (snd (post e req f st))) = robotConnected st \<and>
         telemetry (fst (snd (post e req f st))) = telemetry st"
  using assms by (simp add: post_def split: option.splits)

lemma initializeSession_robot_fields:
  "robotState (fst (snd (initializeSession e st))) = robotState st \<and>
   robotConnected (fst (snd (initializeSession e st))) = robotConnected st \<and>
   telemetry (fst (snd (initializeSession e st))) = telemetry st"
  by (simp add: initializeSession_def Let_def split: option.splits json.splits)

lemma store_step_keeps_robot_fields:
  assumes "\<not> writes_robot ev"
  shows "robotState (store_step e ev st) = robotState st \<and>
         robotConnected (store_step e ev st) = robotConnected st \<and>
         telemetry (store_step e ev st) = telemetry st"
proof (cases ev)
  case Do_initializeSession
  then show ?thesis by (simp add: initializeSession_robot_fields)
next
  case (Do_unlock pin)
  then show ?thesis by (simp add: unlock_def)
next
  case Do_lock
  then show ?thesis by (simp add: lock_def)
next
  case (Do_authenticateSupervisor pin)
  then show ?thesis
    by (simp add: authenticateSupervisor_def post_robot_fields split: option.splits)
next
  case (Do_connectRobot h p)
  with assms show ?thesis by simp
next
  case Do_disconnectRobot
  with assms show ?thesis by simp
next
  case Do_homeRobot
  then show ?thesis by (simp add: homeRobot_def post_robot_fields split: option.splits)
next
  case (Do_jogRobot j)
  then show ?thesis by (simp add: jogRobot_def post_robot_fields split: option.splits)
next
  case Do_stopRobot
  then show ?thesis by (simp add: stopRobot_def post_robot_fields split: option.splits)
next
  case Do_emergencyStop
  then show ?thesis by (simp add: emergencyStop_def post_robot_fields split: option.splits)
next
  case (Do_chessMove a b c)
  then show ?thesis by (simp add: chessMove_def post_robot_fields split: option.splits)
next
  case (Do_updateTelemetry t)
  with assms show ?thesis by simp
next
  case (Do_updateSettings n)
  then show ?thesis by (simp add: updateSettings_def)
next
  case (Do_setCurrentScreen screen)
  then show ?thesis by (simp add: setCurrentScreen_def)
next
  case Do_toggleFullscreen
  then show ?thesis by (simp add: toggleFullscreen_def)
next
  case Do_toggleDebugInfo
  then show ?thesis by (simp add: toggleDebugInfo_def)
qed

lemma store_run_keeps_robot_fields:
  "list_all (\<lambda>ev. \<not> writes_robot ev) evs \<Longrightarrow>
   robotState (store_run e evs st) = robotState st \<and>
   robotConnected (store_run e evs st) = robotConnected st \<and>
   telemetry (store_run e evs st) = telemetry st"
proof (induction evs arbitrary: st)
  case Nil
  then show ?case by simp
next
  case (Cons ev evs)
  then have "\<not> writes_robot ev" and rest: "list_all (\<lambda>ev. \<not> writes_robot ev) evs"
    by simp_all
  from store_step_keeps_robot_fields [OF this(1), of e st] Cons.IH [OF rest, of "store_step e ev st"]
  show ?case by simp
qed

lemma store_run_append:
  "store_run e (xs @ ys) st = store_run e ys (store_run e xs st)"
  by (induction xs arbitrary: st) simp_all

lemma connectRobot_fields:
  "telemetry (fst (snd (connectRobot e h p st))) = telemetry st \<and>
   robotState (fst (snd (connectRobot e h p st))) = robotState st \<and>
   robotConnected (fst (snd (connectRobot e h p st))) =
     (robotConnected st \<or> fst (connectRobot e h p st))"
  by (simp add: connectRobot_def post_def split: option.splits)

lemma disconnectRobot_fields:
  "telemetry (fst (snd (disconnectRobot e st))) = telemetry st \<and>
   (fst (disconnectRobot e st) \<longrightarrow>
      robotState (fst (snd (disconnectRobot e st))) = ''IDLE'' \<and>
      \<not> robotConnected (fst (snd (disconnectRobot e st)))) \<and>
   (\<not> fst (disconnectRobot e st) \<longrightarrow> fst (snd (disconnectRobot e st)) = st)"
  by (simp add: disconnectRobot_def post_def split: option.splits)

text \<open>
  C10, as stated, fails in its conclusion: the cached robot state does not always reflect
  the sample received last. After a sample that reports the state READY and a connected
  robot, a successful disconnectRobot leaves that sample in \<open>telemetry\<close> and sets
  robotState to IDLE and robotConnected to false.
\<close>

theorem telemetry_cache_counterexample:
  "telemetry (store_run example_env
      [Do_updateTelemetry (sample ''READY'' True), Do_disconnectRobot] scenario_store)
     = Some (sample ''READY'' True) \<and>
   t_robotState (sample ''READY'' True) = ''READY'' \<and>
   robotState (store_run example_env
      [Do_updateTelemetry (sample ''READY'' True), Do_disconnectRobot] scenario_store)
     = ''IDLE'' \<and>
   isRobotConnected (sample ''READY'' True) \<and>
   \<not> robotConnected (store_run example_env
      [Do_updateTelemetry (sample ''READY'' True), Do_disconnectRobot] scenario_store)"
  by (simp add: disconnectRobot_def post_def updateTelemetry_def scenario_store_def
      initial_store_def example_env_def sample_def)

text \<open>
  C10, amended: after every call updateTelemetry(t) the kiosk store satisfies
  robotState = t.robotState and robotConnected = t.isRobotConnected (and telemetry = t),
  and after any earlier actions it keeps reflecting that sample through every later
  action of the store other than updateTelemetry, connectRobot and disconnectRobot. A
  connectRobot leaves telemetry and robotState alone and sets robotConnected to true when
  it succeeds; a disconnectRobot leaves telemetry alone, sets robotState to IDLE and
  robotConnected to false when it succeeds, and changes nothing when it fails.
\<close>

theorem telemetry_cache:
  "robotState (updateTelemetry t st) = t_robotState t \<and>
   robotConnected (updateTelemetry t st) = isRobotConnected t \<and>
   telemetry (updateTelemetry t st) = Some t \<and>
   (list_all (\<lambda>ev. \<not> writes_robot ev) evs \<longrightarrow>
      robotState (store_run e (earlier @ Do_updateTelemetry t # evs) st) = t_robotState t \<and>
      robotConnected (store_run e (earlier @ Do_updateTelemetry t # evs) st)
        = isRobotConnected t \<and>
      telemetry (store_run e (earlier @ Do_updateTelemetry t # evs) st) = Some t) \<and>
   telemetry (store_step e (Do_connectRobot h p) st) = telemetry st \<and>
   robotState (store_step e (Do_connectRobot h p) st) = robotState st \<and>
   robotConnected (store_step e (Do_connectRobot h p) st) =
     (robotConnected st \<or> fst (connectRobot e h p st)) \<and>
   telemetry (store_step e Do_disconnectRobot st) = telemetry st \<and>
   (fst (disconnectRobot e st) \<longrightarrow>
      robotState (store_step e Do_disconnectRobot st) = ''IDLE'' \<and>
      \<not> robotConnected (store_step e Do_disconnectRobot st)) \<and>
   (\<not> fst (disconnectRobot e st) \<longrightarrow> store_step e Do_disconnectRobot st = st)"
proof -
  have now: "robotState (updateTelemetry t st) = t_robotState t \<and>
      robotConnected (updateTelemetry t st) = isRobotConnected t \<and>
      telemetry (updateTelemetry t st) = Some t" for st
    by (simp add: updateTelemetry_def)
  have later: "robotState (store_run e (earlier @ Do_updateTelemetry t # evs) st) = t_robotState t \<and>
      robotConnected (store_run e (earlier @ Do_updateTelemetry t # evs) st)
        = isRobotConnected t \<and>
      telemetry (store_run e (earlier @ Do_updateTelemetry t # evs) st) = Some t"
    if "list_all (\<lambda>ev. \<not> writes_robot ev) evs"
    using store_run_keeps_robot_fields [OF that, of e "updateTelemetry t (store_run e earlier st)"]
      now [of "store_run e earlier st"]
    by (simp add: store_run_append)
  show ?thesis
    using now [of st] later connectRobot_fields [of e h p st] disconnectRobot_fields [of e st]
    by simp
qed

theorem telemetry_cache_witness:
  "list_all (\<lambda>ev. \<not> writes_robot ev) quiet_events \<and>
   robotState (store_run example_env
      ([Do_updateTelemetry (sample ''IDLE'' False), Do_connectRobot None None] @
       Do_updateTelemetry (sample ''READY'' True) # quiet_events) initial_store) = ''READY'' \<and>
   robotConnected (store_run example_env
      ([Do_updateTelemetry (sample ''IDLE'' False), Do_connectRobot None None] @
       Do_updateTelemetry (sample ''READY'' True) # quiet_events) initial_store) \<and>
   fst (disconnectRobot example_env scenario_store) \<and>
   robotState (store_step example_env Do_disconnectRobot scenario_store) = ''IDLE'' \<and>
   \<not> robotConnected (store_step example_env Do_disconnectRobot scenario_store) \<and>
   \<not> fst (disconnectRobot example_env initial_store) \<and>
   store_step example_env Do_disconnectRobot initial_store = initial_store"
proof -
  have q: "list_all (\<lambda>ev. \<not> writes_robot ev) quiet_events"
    by (simp add: quiet_events_def)
  have d1: "fst (disconnectRobot example_env scenario_store)"
    by (simp add: disconnectRobot_def post_def scenario_store_def initial_store_def
        example_env_def)
  have d2: "\<not> fst (disconnectRobot example_env initial_store)"
    by (simp add: disconnectRobot_def initial_store_def)
  have s: "t_robotState (sample ''READY'' True) = ''READY''"
    "isRobotConnected (sample ''READY'' True)"
    by (simp_all add: sample_def)
  note c1 = telemetry_cache [where t = "sample ''READY'' True" and evs = quiet_events
      and e = example_env and st = initial_store
      and earlier = "[Do_updateTelemetry (sample ''IDLE'' False), Do_connectRobot None None]"]
  note c2 = telemetry_cache [where e = example_env and st = scenario_store]
  note c3 = telemetry_cache [where e = example_env and st = initial_store]
  show ?thesis
    using q d1 d2 s c1 c2 c3 by (simp del: store_run.simps store_step.simps)
qed

subsection \<open>The jog screen\<close>

lemma handleJog_requests_cases:
  "snd (snd (handleJog e a s j st js)) =
     (if robotConnected st \<and> robotState st = ''READY'' then
        (case truthy_session (sessionId st) of None \<Rightarrow> []
         | Some sid \<Rightarrow>
            [\<lparr>url = action_url e JogRobot, http_method = ''POST'', headers = json_headers sid,
              body = Some (jogRequest_of js a s j)\<rparr>])
      else [])"
  by (simp add: handleJog_def jogRobot_def post_def split: option.splits prod.splits)

lemma handleJog_gate:
  "snd (snd (handleJog e a s j st js)) \<noteq> [] \<Longrightarrow>
   robotConnected st \<and> robotState st = ''READY'' \<and> truthy_session (sessionId st) \<noteq> None"
  by (auto simp: handleJog_requests_cases split: if_splits option.splits)

lemma READY_not_declared: "''READY'' \<notin> set (map RobotState_literal RobotState_variants)"
  by (simp add: RobotState_variants_def)

lemma jogRequest_delta:
  "json_field ''delta'' (jogRequest_of js a s j) = Some (JNum (s * slider_jogDistance js))"
  by (simp add: jogRequest_of_def Let_def mult.commute)

lemma jogRequest_axis:
  "jogMode js = ''tcp'' \<Longrightarrow> json_field ''axis'' (jogRequest_of js a s j) = Some (JStr a)"
  by (simp add: jogRequest_of_def Let_def)

text \<open>
  C7: a jog along axis a with direction s and selected distance d, pressed while the
  robot is connected and READY and a session is open, produces a single request: a POST
  to the jog path whose delta is s*d (and, in TCP mode, whose axis is a, so that the
  requested target is the starting pose moved by s*d along a); in every state the
  handler issues at most one request and each request it issues carries the delta s*d.
  The witness is the scenario of the specification: x+ by 0.01 at speed 0.1 from
  [0,-0.5,0.3,0,0,0] gives one request with delta +0.01 and the target
  [0.01,-0.5,0.3,0,0,0].
\<close>

theorem handleJog_sends_signed_delta:
  "(robotConnected st \<and> robotState st = ''READY'' \<and> sessionId st = Some sid \<and> sid \<noteq> [] \<longrightarrow>
      (\<exists>req. snd (snd (handleJog e a s j st js)) = [req] \<and>
         url req = action_url e JogRobot \<and>
         http_method req = ''POST'' \<and>
         request_delta req = Some (JNum (s * slider_jogDistance js)) \<and>
         (jogMode js = ''tcp'' \<longrightarrow>
            request_axis req = Some (JStr a) \<and>
            requested_target p req = jog_target p a (s * slider_jogDistance js)))) \<and>
   length (snd (snd (handleJog e a s j st js))) \<le> 1 \<and>
   list_all (\<lambda>req. request_delta req = Some (JNum (s * slider_jogDistance js)))
     (snd (snd (handleJog e a s j st js)))"
  by (simp add: handleJog_requests_cases request_delta_def request_axis_def
      requested_target_def jogRequest_delta jogRequest_axis split: option.splits)

theorem handleJog_scenario_witness:
  "robotConnected scenario_store \<and> robotState scenario_store = ''READY'' \<and>
   sessionId scenario_store = Some ''test-session-123'' \<and>
   jogMode initial_JogScreen = ''tcp'' \<and>
   snd (snd (handleJog example_env ''x'' 1 None scenario_store initial_JogScreen)) =
     [\<lparr>url = ''http://localhost:8000/api/robot/jog'', http_method = ''POST'',
       headers = [(''Content-Type'', ''application/json''),
                  (''X-Session-ID'', ''test-session-123'')],
       body = Some (JObj [(''mode'', JStr ''tcp''), (''speed'', JNum (1 / 10)),
                          (''frame'', JStr ''base''), (''axis'', JStr ''x''),
                          (''delta'', JNum (1 / 100))])\<rparr>] \<and>
   requested_target scenario_pose
     (hd (snd (snd (handleJog example_env ''x'' 1 None scenario_store initial_JogScreen)))) =
     Some \<lparr>p_x = 1 / 100, p_y = - (1 / 2), p_z = 3 / 10, p_rx = 0, p_ry = 0, p_rz = 0\<rparr>"
  using handleJog_sends_signed_delta [of scenario_store "''test-session-123''" example_env
      "''x''" 1 None initial_JogScreen scenario_pose]
  by (simp add: handleJog_requests_cases scenario_store_def initial_store_def
      initial_JogScreen_def example_env_def action_url_def json_headers_def
      jogRequest_of_def requested_target_def request_axis_def request_delta_def
      jog_target_def scenario_pose_def)

subsection \<open>The WebSocket provider\<close>
















subsection \<open>The session gate\<close>

lemma filter_id_le_one:
  "distinct (map s_id ss) \<Longrightarrow> length (filter (\<lambda>s. s_id s = sid) ss) \<le> 1"
proof (induction ss)
  case Nil
  then show ?case by simp
next
  case (Cons s ss)
  show ?case
  proof (cases "s_id s = sid")
    case True
    with Cons.prems have "\<forall>u \<in> set ss. s_id u \<noteq> sid" by (auto simp: image_iff)
    then have "filter (\<lambda>s. s_id s = sid) ss = []" by (simp add: filter_empty_conv)
    with True show ?thesis by simp
  next
    case False
    with Cons show ?thesis by simp
  qed
qed

lemma controllers_map_le:
  assumes "\<And>s. s_controlling (f s) \<Longrightarrow> s_controlling s"
  shows "length (filter s_controlling (map f ss)) \<le> length (filter s_controlling ss)"
proof (induction ss)
  case Nil
  then show ?case by simp
next
  case (Cons s ss)
  then show ?case using assms [of s] by auto
qed

lemma on_session_ids:
  assumes "\<And>s. s_id (f s) = s_id s"
  shows "map s_id (sessions (on_session sid f g)) = map s_id (sessions g)"
  using assms by (simp add: on_session_def comp_def)

lemma on_session_wf:
  assumes "gate_wf g" and "\<And>s. s_id (f s) = s_id s"
    and "\<And>s. s_controlling (f s) \<Longrightarrow> s_controlling s"
  shows "gate_wf (on_session sid f g)"
proof -
  have ids: "map s_id (sessions (on_session sid f g)) = map s_id (sessions g)"
    using assms(2) by (rule on_session_ids)
  have "length (filter s_controlling (map (\<lambda>s. if s_id s = sid then f s else s) (sessions g)))
      \<le> length (filter s_controlling (sessions g))"
    by (rule controllers_map_le) (simp add: assms(3) split: if_splits)
  then have c: "length (controllers (on_session sid f g)) \<le> length (controllers g)"
    by (simp add: controllers_def on_session_def)
  have n: "next_id (on_session sid f g) = next_id g"
    by (simp add: on_session_def)
  from assms(1) ids c n show ?thesis
    by (simp add: gate_wf_def)
qed

lemma createSession_wf: "gate_wf g \<Longrightarrow> gate_wf (snd (createSession c now g))"
  by (auto simp: gate_wf_def createSession_def controllers_def list_all_iff
      intro: less_SucI)

lemma acquireControl_wf:
  assumes "gate_wf g" and "acquireControl sid now g = Inr g'"
  shows "gate_wf g'"
proof -
  from assms(2) have g': "g' = g\<lparr>sessions := map (\<lambda>s. s\<lparr>s_controlling := (s_id s = sid)\<rparr>) (sessions g)\<rparr>"
    by (simp add: acquireControl_def split: if_splits)
  have "filter s_controlling (map (\<lambda>s. s\<lparr>s_controlling := (s_id s = sid)\<rparr>) (sessions g))
      = map (\<lambda>s. s\<lparr>s_controlling := (s_id s = sid)\<rparr>) (filter (\<lambda>s. s_id s = sid) (sessions g))"
    by (simp add: filter_map comp_def)
  then have "length (controllers g') = length (filter (\<lambda>s. s_id s = sid) (sessions g))"
    by (simp add: controllers_def g')
  moreover from assms(1) have "distinct (map s_id (sessions g))"
    by (simp add: gate_wf_def)
  ultimately have "length (controllers g') \<le> 1"
    using filter_id_le_one [of "sessions g" sid] by simp
  moreover have "map s_id (sessions g') = map s_id (sessions g)"
    by (simp add: g' comp_def)
  moreover have "next_id g' = next_id g" by (simp add: g')
  ultimately show ?thesis using assms(1)
    by (simp add: gate_wf_def)
qed

lemma expire_sessions_wf: "gate_wf g \<Longrightarrow> gate_wf (expire_sessions now g)"
proof -
  assume wf: "gate_wf g"
  let ?f = "\<lambda>s. if expired (inactivity_timeout g) now s
                   then s\<lparr>s_controlling := False, s_locked := True\<rparr> else s"
  have "length (filter s_controlling (map ?f (sessions g))) \<le> length (filter s_controlling (sessions g))"
    by (rule controllers_map_le) (simp split: if_splits)
  then have "length (controllers (expire_sessions now g)) \<le> length (controllers g)"
    by (simp add: controllers_def expire_sessions_def)
  moreover have "map s_id (sessions (expire_sessions now g)) = map s_id (sessions g)"
    by (simp add: expire_sessions_def comp_def if_distrib cong: if_cong)
  moreover have "next_id (expire_sessions now g) = next_id g"
    by (simp add: expire_sessions_def)
  ultimately show ?thesis using wf
    by (simp add: gate_wf_def)
qed

lemma destroySession_wf: "gate_wf g \<Longrightarrow> gate_wf (destroySession sid g)"
proof -
  assume wf: "gate_wf g"
  have "filter s_controlling (filter (\<lambda>s. s_id s \<noteq> sid) (sessions g))
      = filter (\<lambda>s. s_id s \<noteq> sid) (filter s_controlling (sessions g))"
    by (simp add: conj_commute)
  then have "length (filter s_controlling (filter (\<lambda>s. s_id s \<noteq> sid) (sessions g)))
      \<le> length (filter s_controlling (sessions g))"
    by (simp only: length_filter_le)
  then have "length (controllers (destroySession sid g)) \<le> length (controllers g)"
    by (simp add: controllers_def destroySession_def)
  with wf show ?thesis
    by (simp add: gate_wf_def destroySession_def distinct_map_filter list_all_iff)
qed

lemma authorize_wf:
  "gate_wf g \<Longrightarrow> authorize sid pin now g = Inr (r, g') \<Longrightarrow> gate_wf g'"
proof -
  assume wf: "gate_wf g" and a: "authorize sid pin now g = Inr (r, g')"
  from a have "g' = on_session sid
      (\<lambda>s. s\<lparr>s_role := r, s_locked := False, s_lastActivity := now\<rparr>) g"
    by (auto simp: authorize_def split: if_splits option.splits)
  with wf show ?thesis
    by (auto intro: on_session_wf)
qed

lemma gate_step_wf: "gate_wf g \<Longrightarrow> gate_wf (gate_step x g)"
proof (cases x)
  case (Create c now)
  assume "gate_wf g"
  with Create show ?thesis by (simp add: createSession_wf)
next
  case (Authorize sid pin now)
  assume "gate_wf g"
  with Authorize show ?thesis
    by (auto simp: authorize_wf split: sum.splits)
next
  case (Acquire sid now)
  assume "gate_wf g"
  with Acquire show ?thesis
    by (auto simp: acquireControl_wf split: sum.splits)
next
  case (Release sid)
  assume "gate_wf g"
  with Release show ?thesis by (auto simp: releaseControl_def intro: on_session_wf)
next
  case (Touch sid now)
  assume "gate_wf g"
  with Touch show ?thesis by (auto simp: touch_def intro: on_session_wf)
next
  case (Expire now)
  assume "gate_wf g"
  with Expire show ?thesis by (simp add: expire_sessions_wf)
next
  case (Destroy sid)
  assume "gate_wf g"
  with Destroy show ?thesis by (simp add: destroySession_wf)
qed

lemma gate_run_wf: "gate_wf g \<Longrightarrow> gate_wf (gate_run xs g)"
  by (induction xs arbitrary: g) (simp_all add: gate_step_wf)

lemma empty_gate_wf: "gate_wf (empty_gate tmo cfg)"
  by (simp add: gate_wf_def empty_gate_def controllers_def)


lemma race_all_rejected:
  assumes "\<forall>sid \<in> set sids. known sid g \<and> held_by_other sid now g"
  shows "race sids now g = (replicate (length sids) (Inl AlreadyControlled), g)"
  using assms by (induction sids) (simp_all add: acquireControl_def)

lemma race_as_run:
  "snd (race sids now g) = gate_run (map (\<lambda>sid. Acquire sid now) sids) g"
proof (induction sids arbitrary: g)
  case Nil
  then show ?case by simp
next
  case (Cons sid sids)
  show ?case
  proof (cases "acquireControl sid now g")
    case (Inl err)
    with Cons.IH [of g] show ?thesis by (auto split: prod.splits)
  next
    case (Inr g1)
    with Cons.IH [of g1] show ?thesis by (auto split: prod.splits)
  qed
qed

lemma acquire_when_free:
  assumes "known c g" and "controllers g = []"
  shows "acquireControl c now g =
           Inr (g\<lparr>sessions := map (\<lambda>s. s\<lparr>s_controlling := (s_id s = c)\<rparr>) (sessions g)\<rparr>)"
proof -
  from assms(2) have "\<forall>s \<in> set (sessions g). \<not> s_controlling s"
    by (simp add: controllers_def filter_empty_conv)
  then have "\<not> held_by_other c now g"
    by (auto simp: held_by_other_def list_ex_iff)
  with assms(1) show ?thesis
    by (simp add: acquireControl_def)
qed

lemma filter_id_single:
  "distinct (map s_id ss) \<Longrightarrow> c \<in> set (map s_id ss) \<Longrightarrow>
   map s_id (filter (\<lambda>s. s_id s = c) ss) = [c]"
proof (induction ss)
  case Nil
  then show ?case by simp
next
  case (Cons s ss)
  show ?case
  proof (cases "s_id s = c")
    case True
    with Cons.prems have "\<forall>u \<in> set ss. s_id u \<noteq> c" by (auto simp: image_iff)
    then have "filter (\<lambda>s. s_id s = c) ss = []" by (simp add: filter_empty_conv)
    with True show ?thesis by simp
  next
    case False
    with Cons show ?thesis by auto
  qed
qed

lemma controllers_after_acquire:
  assumes "distinct (map s_id (sessions g))" and "known c g"
  shows "controllers (g\<lparr>sessions := map (\<lambda>s. s\<lparr>s_controlling := (s_id s = c)\<rparr>) (sessions g)\<rparr>)
           = [c]"
proof -
  have "map s_id (filter s_controlling (map (\<lambda>s. s\<lparr>s_controlling := (s_id s = c)\<rparr>) (sessions g)))
      = map s_id (filter (\<lambda>s. s_id s = c) (sessions g))"
    by (simp add: filter_map comp_def)
  with assms show ?thesis
    by (simp add: controllers_def known_def filter_id_single)
qed

lemma others_rejected_after_acquire:
  assumes "known c g" and "known sid g" and "sid \<noteq> c"
    and "\<forall>s \<in> set (sessions g). s_id s = c \<longrightarrow> \<not> expired (inactivity_timeout g) now s"
  defines "g1 \<equiv> g\<lparr>sessions := map (\<lambda>s. s\<lparr>s_controlling := (s_id s = c)\<rparr>) (sessions g)\<rparr>"
  shows "known sid g1 \<and> held_by_other sid now g1"
proof -
  from assms(1) obtain s where s: "s \<in> set (sessions g)" "s_id s = c"
    by (auto simp: known_def)
  with assms(4) have ne: "\<not> expired (inactivity_timeout g) now s" by simp
  let ?s' = "s\<lparr>s_controlling := (s_id s = c)\<rparr>"
  from s have "?s' \<in> set (sessions g1)"
    by (simp add: g1_def image_iff) (metis)
  moreover from s ne assms(3) have "s_id ?s' \<noteq> sid \<and> s_controlling ?s' \<and>
      \<not> expired (inactivity_timeout g1) now ?s'"
    by (simp add: g1_def expired_def)
  ultimately have "held_by_other sid now g1"
    unfolding held_by_other_def list_ex_iff by blast
  moreover from assms(2) have "known sid g1"
    by (simp add: known_def g1_def comp_def)
  ultimately show ?thesis by simp
qed

lemma race_one_winner:
  assumes wf: "gate_wf g" and free: "controllers g = []"
    and d: "distinct (c # cs)" and k: "\<forall>sid \<in> set (c # cs). known sid g"
    and live: "\<forall>s \<in> set (sessions g). s_id s \<in> set (c # cs) \<longrightarrow>
                 \<not> expired (inactivity_timeout g) now s"
  shows "fst (race (c # cs) now g) = Inr () # replicate (length cs) (Inl AlreadyControlled)"
    and "controllers (snd (race (c # cs) now g)) = [c]"
proof -
  let ?g1 = "g\<lparr>sessions := map (\<lambda>s. s\<lparr>s_controlling := (s_id s = c)\<rparr>) (sessions g)\<rparr>"
  from k have kc: "known c g" by simp
  have acq: "acquireControl c now g = Inr ?g1"
    using kc free by (rule acquire_when_free)
  have "\<forall>sid \<in> set cs. known sid ?g1 \<and> held_by_other sid now ?g1"
  proof
    fix sid assume "sid \<in> set cs"
    with d k have "known sid g" "sid \<noteq> c" by auto
    moreover from live have "\<forall>s \<in> set (sessions g). s_id s = c \<longrightarrow>
        \<not> expired (inactivity_timeout g) now s" by simp
    ultimately show "known sid ?g1 \<and> held_by_other sid now ?g1"
      using others_rejected_after_acquire [OF kc] by blast
  qed
  then have r: "race cs now ?g1 = (replicate (length cs) (Inl AlreadyControlled), ?g1)"
    by (rule race_all_rejected)
  from acq r show "fst (race (c # cs) now g) = Inr () # replicate (length cs) (Inl AlreadyControlled)"
    by simp
  from wf have "distinct (map s_id (sessions g))" by (simp add: gate_wf_def)
  then have "controllers ?g1 = [c]" using kc by (rule controllers_after_acquire)
  with acq r show "controllers (snd (race (c # cs) now g)) = [c]"
    by simp
qed


text \<open>
  C2: in every state the gate reaches from the empty gate, by any series of its
  operations, at most one session holds the controlling-flag. When the sessions of
  \<open>callers\<close> (one or more different, registered sessions that have not expired) call
  acquireControl at the same time on a gate nobody controls, then in whatever order the
  calls take effect exactly one succeeds, the first to take effect, and every other fails
  with AlreadyControlled; afterwards that session alone holds control, and after any
  number of the calls at most one session does.
\<close>

theorem single_controller:
  "length (controllers (gate_run ops (empty_gate tmo cfg))) \<le> 1 \<and>
   (gate_wf g \<and> controllers g = [] \<and> callers \<noteq> [] \<and> distinct callers \<and>
    (\<forall>sid \<in> set callers. known sid g) \<and>
    (\<forall>s \<in> set (sessions g). s_id s \<in> set callers \<longrightarrow>
        \<not> expired (inactivity_timeout g) now s) \<longrightarrow>
      fst (race callers now g) =
        Inr () # replicate (length callers - 1) (Inl AlreadyControlled) \<and>
      controllers (snd (race callers now g)) = [hd callers] \<and>
      snd (race callers now g) = gate_run (map (\<lambda>sid. Acquire sid now) callers) g \<and>
      length (controllers (gate_run (map (\<lambda>sid. Acquire sid now) (take n callers)) g)) \<le> 1)"
proof -
  have inv: "length (controllers (gate_run ops (empty_gate tmo cfg))) \<le> 1"
    using gate_run_wf [OF empty_gate_wf, of ops tmo cfg] by (simp add: gate_wf_def)
  have race: "fst (race callers now g) =
        Inr () # replicate (length callers - 1) (Inl AlreadyControlled) \<and>
      controllers (snd (race callers now g)) = [hd callers] \<and>
      snd (race callers now g) = gate_run (map (\<lambda>sid. Acquire sid now) callers) g \<and>
      length (controllers (gate_run (map (\<lambda>sid. Acquire sid now) (take n callers)) g)) \<le> 1"
    if wf: "gate_wf g" and free: "controllers g = []" and ne: "callers \<noteq> []"
      and d: "distinct callers" and k: "\<forall>sid \<in> set callers. known sid g"
      and live: "\<forall>s \<in> set (sessions g). s_id s \<in> set callers \<longrightarrow>
        \<not> expired (inactivity_timeout g) now s"
  proof -
    from ne obtain c cs where callers: "callers = c # cs" by (cases callers) auto
    have "fst (race (c # cs) now g) = Inr () # replicate (length cs) (Inl AlreadyControlled)"
      and "controllers (snd (race (c # cs) now g)) = [c]"
      using race_one_winner [OF wf free, of c cs now] d k live unfolding callers by blast+
    moreover have "length (controllers (gate_run (map (\<lambda>sid. Acquire sid now) (take n callers)) g)) \<le> 1"
      using gate_run_wf [OF wf] by (simp add: gate_wf_def)
    ultimately show ?thesis
      using race_as_run [of callers now g] by (simp add: callers)
  qed
  from inv race show ?thesis by blast
qed

lemma three_sessions_eq:
  "three_sessions =
     \<lparr>sessions =
        [\<lparr>s_id = 0, s_role = operator, s_created = 0, s_lastActivity = 0,
          s_controlling = False, s_locked = False\<rparr>,
         \<lparr>s_id = 1, s_role = operator, s_created = 0, s_lastActivity = 0,
          s_controlling = False, s_locked = False\<rparr>,
         \<lparr>s_id = 2, s_role = supervisor, s_created = 0, s_lastActivity = 0,
          s_controlling = False, s_locked = False\<rparr>],
      next_id = 3, inactivity_timeout = 300, pins = DEFAULT_SECURITY_CONFIG\<rparr>"
  by (simp add: three_sessions_def empty_gate_def createSession_def authorize_def known_def
      on_session_def role_of_pin_def DEFAULT_SECURITY_CONFIG_def)

theorem single_controller_witness:
  "controllers three_sessions = [] \<and> distinct [2, 0, 1 :: nat] \<and>
   known 0 three_sessions \<and> known 1 three_sessions \<and> known 2 three_sessions \<and>
   fst (race [2, 0, 1] 10 three_sessions) =
     [Inr (), Inl AlreadyControlled, Inl AlreadyControlled] \<and>
   controllers (snd (race [2, 0, 1] 10 three_sessions)) = [2] \<and>
   fst (race [0, 1, 2] 10 three_sessions) =
     [Inr (), Inl AlreadyControlled, Inl AlreadyControlled] \<and>
   controllers (snd (race [0, 1, 2] 10 three_sessions)) = [0]"
proof -
  have wf: "gate_wf three_sessions"
    unfolding three_sessions_def by (rule gate_run_wf) (rule empty_gate_wf)
  have free: "controllers three_sessions = []"
    by (simp add: three_sessions_eq controllers_def)
  have k: "known 0 three_sessions" "known 1 three_sessions" "known 2 three_sessions"
    by (simp_all add: three_sessions_eq known_def)
  have live: "\<forall>s \<in> set (sessions three_sessions). s_id s \<in> set cs \<longrightarrow>
      \<not> expired (inactivity_timeout three_sessions) 10 s" for cs
    by (simp add: three_sessions_eq expired_def)
  have h1: "gate_wf three_sessions \<and> controllers three_sessions = [] \<and> [2, 0, 1 :: nat] \<noteq> [] \<and>
      distinct [2, 0, 1 :: nat] \<and> (\<forall>sid \<in> set [2, 0, 1]. known sid three_sessions) \<and>
      (\<forall>s \<in> set (sessions three_sessions). s_id s \<in> set [2, 0, 1] \<longrightarrow>
          \<not> expired (inactivity_timeout three_sessions) 10 s)"
    using wf free k live [of "[2, 0, 1]"] by simp
  have h2: "gate_wf three_sessions \<and> controllers three_sessions = [] \<and> [0, 1, 2 :: nat] \<noteq> [] \<and>
      distinct [0, 1, 2 :: nat] \<and> (\<forall>sid \<in> set [0, 1, 2]. known sid three_sessions) \<and>
      (\<forall>s \<in> set (sessions three_sessions). s_id s \<in> set [0, 1, 2] \<longrightarrow>
          \<not> expired (inactivity_timeout three_sessions) 10 s)"
    using wf free k live [of "[0, 1, 2]"] by simp
  note r1 = single_controller [of "[]" 300 DEFAULT_SECURITY_CONFIG three_sessions
      "[2, 0, 1]" 10 3, THEN conjunct2, THEN mp, OF h1]
  note r2 = single_controller [of "[]" 300 DEFAULT_SECURITY_CONFIG three_sessions
      "[0, 1, 2]" 10 3, THEN conjunct2, THEN mp, OF h2]
  have "fst (race [2, 0, 1] 10 three_sessions) =
     [Inr (), Inl AlreadyControlled, Inl AlreadyControlled]"
    "controllers (snd (race [2, 0, 1] 10 three_sessions)) = [2]"
    using r1 [THEN conjunct1] r1 [THEN conjunct2, THEN conjunct1]
    by (simp_all del: race.simps)
  moreover have "fst (race [0, 1, 2] 10 three_sessions) =
     [Inr (), Inl AlreadyControlled, Inl AlreadyControlled]"
    "controllers (snd (race [0, 1, 2] 10 three_sessions)) = [0]"
    using r2 [THEN conjunct1] r2 [THEN conjunct2, THEN conjunct1]
    by (simp_all del: race.simps)
  ultimately show ?thesis
    using free k by (simp del: race.simps)
qed

subsection \<open>The motion executor\<close>

lemma through_slot_transmitted:
  "transmitted (snd (through_slot c c' ex)) = transmitted ex \<or>
   transmitted (snd (through_slot c c' ex)) =
     transmitted ex @ [(c', ex_safetyMode ex, ex_robotState ex)]"
  by (cases c) (simp_all add: transmit_def)

lemma execute_closed_gate:
  "\<not> gate_open ex \<Longrightarrow> \<not> is_stop c \<Longrightarrow> execute cfg c ex = (Inl SafetyViolation, ex)"
  by (cases c) simp_all

lemma execute_stop:
  "fst (execute cfg (Stop e) ex) = Inr ()"
  "transmitted (snd (execute cfg (Stop e) ex)) =
     transmitted ex @ [(Stop e, ex_safetyMode ex, ex_robotState ex)]"
  by (simp_all add: transmit_def)

lemma execute_motion_transmitted:
  assumes "\<not> is_stop c"
  shows "transmitted (snd (execute cfg c ex)) = transmitted ex \<or>
         (gate_open ex \<and>
          transmitted (snd (execute cfg c ex)) =
            transmitted ex @ [(clamp_command (params cfg) c, ex_safetyMode ex, ex_robotState ex)])"
proof (cases "gate_open ex")
  case False
  with assms show ?thesis by (simp add: execute_closed_gate)
next
  case True
  have "snd (execute cfg c ex) = ex \<or>
        snd (execute cfg c ex) = snd (through_slot c (clamp_command (params cfg) c) ex)"
    using assms True by (cases c) (simp_all split: option.splits)
  with True through_slot_transmitted [of c "clamp_command (params cfg) c" ex]
  show ?thesis by auto
qed

lemma is_stop_clamp: "is_stop (clamp_command ps c) = is_stop c"
  by (cases c) simp_all

lemma execute_keeps_record:
  assumes "list_all sent_through_gate (transmitted ex)"
  shows "list_all sent_through_gate (transmitted (snd (execute cfg c ex)))"
proof (cases "is_stop c")
  case True
  then obtain e where "c = Stop e" by (cases c) simp_all
  with assms show ?thesis by (simp add: transmit_def)
next
  case False
  from execute_motion_transmitted [OF False, of cfg ex] assms show ?thesis
    by (auto simp: gate_open_def)
qed

lemma complete_keeps_record:
  assumes "list_all sent_through_gate (transmitted ex)"
  shows "list_all sent_through_gate (transmitted (complete cfg ex))"
proof (cases "queued ex")
  case None
  with assms show ?thesis by (simp add: complete_def)
next
  case (Some c)
  have "list_all sent_through_gate (transmitted (ex\<lparr>in_flight := None, queued := None\<rparr>))"
    using assms by simp
  then have "list_all sent_through_gate
      (transmitted (snd (execute cfg c (ex\<lparr>in_flight := None, queued := None\<rparr>))))"
    by (rule execute_keeps_record)
  with Some show ?thesis by (simp add: complete_def)
qed

lemma exec_step_keeps_record:
  "list_all sent_through_gate (transmitted ex) \<Longrightarrow>
   list_all sent_through_gate (transmitted (exec_step cfg ev ex))"
  by (cases ev) (simp_all add: execute_keeps_record complete_keeps_record feedback_def)

lemma exec_run_keeps_record:
  "list_all sent_through_gate (transmitted ex) \<Longrightarrow>
   list_all sent_through_gate (transmitted (exec_run cfg evs ex))"
  by (induction evs arbitrary: ex) (simp_all add: exec_step_keeps_record)

lemma emergency_family_closes_gate: "emergency_family (ex_safetyMode ex) \<Longrightarrow> \<not> gate_open ex"
  by (auto simp: emergency_family_def gate_open_def mode_permits_def)

lemma issue_all_in_emergency:
  assumes "emergency_family (ex_safetyMode ex)"
  shows "fst (issue_all cfg cs ex) =
           map (\<lambda>c. if is_stop c then Inr () else Inl SafetyViolation) cs \<and>
         map fst (transmitted (snd (issue_all cfg cs ex))) =
           map fst (transmitted ex) @ filter is_stop cs \<and>
         emergency_family (ex_safetyMode (snd (issue_all cfg cs ex)))"
  using assms
proof (induction cs arbitrary: ex)
  case Nil
  then show ?case by simp
next
  case (Cons c cs)
  show ?case
  proof (cases "is_stop c")
    case False
    with Cons.prems have "execute cfg c ex = (Inl SafetyViolation, ex)"
      by (simp add: execute_closed_gate emergency_family_closes_gate)
    with False Cons.IH [OF Cons.prems] show ?thesis
      by (auto split: prod.splits)
  next
    case True
    then obtain e where c: "c = Stop e" by (cases c) simp_all
    obtain ex1 where ex1: "execute cfg c ex = (Inr (), ex1)"
      using c by simp
    have fam: "emergency_family (ex_safetyMode ex1)"
      using ex1 c Cons.prems by (auto simp: transmit_def emergency_family_def split: if_splits)
    have tr: "map fst (transmitted ex1) = map fst (transmitted ex) @ [c]"
      using ex1 c by (auto simp: transmit_def split: if_splits)
    from Cons.IH [OF fam] ex1 True tr show ?thesis
      by (auto split: prod.splits)
  qed
qed


text \<open>
  C1: whatever commands are issued, whatever completes and whatever the controller
  reports, every motion command (jog, move, home) in the record of what was transmitted
  was transmitted while the safety mode was NORMAL or REDUCED and the robot state was none
  of EMERGENCY_STOP, PROTECTIVE_STOP, FAULT, ERROR; a motion command that adds to what
  was transmitted was issued in such a state. While the safety mode is
  SYSTEM_EMERGENCY_STOP or ROBOT_EMERGENCY_STOP every command other than stop is rejected
  with SafetyViolation and changes nothing, stop is accepted and transmitted in every
  state, and of any series of commands issued in such a mode exactly the stops are
  accepted and transmitted.
\<close>

theorem motion_gate:
  "(list_all sent_through_gate (transmitted ex) \<longrightarrow>
      list_all sent_through_gate (transmitted (exec_run cfg evs ex))) \<and>
   (\<not> is_stop c \<and> transmitted (snd (execute cfg c ex)) \<noteq> transmitted ex \<longrightarrow>
      (ex_safetyMode ex = SM_NORMAL \<or> ex_safetyMode ex = SM_REDUCED) \<and>
      ex_robotState ex \<noteq> RS_EMERGENCY_STOP \<and> ex_robotState ex \<noteq> RS_PROTECTIVE_STOP \<and>
      ex_robotState ex \<noteq> RS_FAULT \<and> ex_robotState ex \<noteq> RS_ERROR) \<and>
   (emergency_family (ex_safetyMode ex) \<and> \<not> is_stop c \<longrightarrow>
      execute cfg c ex = (Inl SafetyViolation, ex)) \<and>
   fst (execute cfg (Stop e) ex) = Inr () \<and>
   transmitted (snd (execute cfg (Stop e) ex)) =
     transmitted ex @ [(Stop e, ex_safetyMode ex, ex_robotState ex)] \<and>
   (emergency_family (ex_safetyMode ex) \<longrightarrow>
      fst (issue_all cfg cs ex) =
        map (\<lambda>c. if is_stop c then Inr () else Inl SafetyViolation) cs \<and>
      map fst (transmitted (snd (issue_all cfg cs ex))) =
        map fst (transmitted ex) @ filter is_stop cs)"
proof -
  have only_if: "(ex_safetyMode ex = SM_NORMAL \<or> ex_safetyMode ex = SM_REDUCED) \<and>
      ex_robotState ex \<noteq> RS_EMERGENCY_STOP \<and> ex_robotState ex \<noteq> RS_PROTECTIVE_STOP \<and>
      ex_robotState ex \<noteq> RS_FAULT \<and> ex_robotState ex \<noteq> RS_ERROR"
    if "\<not> is_stop c" and "transmitted (snd (execute cfg c ex)) \<noteq> transmitted ex"
  proof -
    from that execute_motion_transmitted [of c cfg ex] have "gate_open ex" by blast
    then show ?thesis
      by (simp add: gate_open_def mode_permits_def state_forbids_def)
  qed
  have rejected: "execute cfg c ex = (Inl SafetyViolation, ex)"
    if "emergency_family (ex_safetyMode ex)" and "\<not> is_stop c"
    using that by (simp add: execute_closed_gate emergency_family_closes_gate)
  show ?thesis
    using exec_run_keeps_record [of ex cfg evs] only_if rejected
      execute_stop [of cfg e ex] issue_all_in_emergency [of ex cfg cs]
    by blast
qed

lemma stopped_executor_eq:
  "stopped_executor =
     idle_executor\<lparr>ex_safetyMode := SM_SYSTEM_EMERGENCY_STOP,
       transmitted := [(Stop True, SM_NORMAL, RS_IDLE)]\<rparr>"
  by (simp add: stopped_executor_def idle_executor_def transmit_def)

theorem motion_gate_witness:
  "list_all sent_through_gate (transmitted idle_executor) \<and>
   transmitted (exec_run default_motion_config example_events idle_executor) =
     [(example_jog, SM_NORMAL, RS_IDLE), (Stop False, SM_PROTECTIVE_STOP, RS_RUNNING)] \<and>
   \<not> is_stop example_jog \<and>
   transmitted (snd (execute default_motion_config example_jog idle_executor)) =
     [(example_jog, SM_NORMAL, RS_IDLE)] \<and>
   ex_safetyMode idle_executor = SM_NORMAL \<and> ex_robotState idle_executor = RS_IDLE \<and>
   emergency_family (ex_safetyMode stopped_executor) \<and>
   execute default_motion_config example_jog stopped_executor =
     (Inl SafetyViolation, stopped_executor) \<and>
   fst (issue_all default_motion_config example_commands stopped_executor) =
     [Inl SafetyViolation, Inr (), Inl SafetyViolation, Inl SafetyViolation, Inr (),
      Inl SafetyViolation] \<and>
   map fst (transmitted (snd (issue_all default_motion_config example_commands
     stopped_executor))) = [Stop True, Stop False, Stop True]"
proof -
  have a: "list_all sent_through_gate (transmitted idle_executor)"
    by (simp add: idle_executor_def)
  have b: "\<not> is_stop example_jog"
    by (simp add: example_jog_def)
  have c: "transmitted (snd (execute default_motion_config example_jog idle_executor)) =
     [(example_jog, SM_NORMAL, RS_IDLE)]"
    by (simp add: example_jog_def idle_executor_def default_motion_config_def
        DEFAULT_ROBOT_PARAMETERS_def gate_open_def mode_permits_def state_forbids_def
        jog_target_def scenario_pose_def in_workspace_def transmit_def all_joints_def)
  have d: "transmitted (exec_run default_motion_config example_events idle_executor) =
     [(example_jog, SM_NORMAL, RS_IDLE), (Stop False, SM_PROTECTIVE_STOP, RS_RUNNING)]"
    by (simp add: example_events_def example_jog_def idle_executor_def
        default_motion_config_def DEFAULT_ROBOT_PARAMETERS_def gate_open_def
        mode_permits_def state_forbids_def jog_target_def scenario_pose_def
        in_workspace_def transmit_def all_joints_def feedback_def complete_def)
  have f: "emergency_family (ex_safetyMode stopped_executor)"
    by (simp add: stopped_executor_eq emergency_family_def)
  have g: "transmitted stopped_executor = [(Stop True, SM_NORMAL, RS_IDLE)]"
    by (simp add: stopped_executor_eq)
  have h: "transmitted idle_executor = []"
    by (simp add: idle_executor_def)
  note m1 = motion_gate [of idle_executor default_motion_config example_events example_jog
      True example_commands]
  note m2 = motion_gate [of stopped_executor default_motion_config example_events example_jog
      True example_commands]
  have "execute default_motion_config example_jog stopped_executor =
     (Inl SafetyViolation, stopped_executor)"
    using m2 f b by blast
  moreover have "fst (issue_all default_motion_config example_commands stopped_executor) =
      map (\<lambda>c. if is_stop c then Inr () else Inl SafetyViolation) example_commands"
    "map fst (transmitted (snd (issue_all default_motion_config example_commands
       stopped_executor))) = map fst (transmitted stopped_executor) @ filter is_stop example_commands"
    using m2 f by blast+
  moreover have "ex_safetyMode idle_executor = SM_NORMAL \<and> ex_robotState idle_executor = RS_IDLE"
    using m1 b c h by (simp add: idle_executor_def)
  ultimately show ?thesis
    using a b c d f g
    by (simp add: example_commands_def example_jog_def)
qed

end
